theory Spec2Isabelle
  imports Main "HOL-Library.AList" "HOL-Library.Sublist"
begin

section \<open>The site builder \<open>sync.py\<close>: a shallow embedding\<close>

text \<open>
  \<open>sync.py\<close> converts Markdown posts to HTML pages, renders two HTML fragments
  (project cards, the list of posts) and injects them between marker comments of
  \<open>index.html\<close>. Everything it does goes through the file system, so the embedding
  passes the file system explicitly: every function takes it and returns it.

  Conventions of the embedding:
  \<^item> a Python \<open>str\<close> is a \<open>string\<close>, one \<open>char\<close> per character (so the text
    covered is the text whose code points are below 256), and a file's content is the
    text Python reads from it;
  \<^item> an exception is a value: a function that can raise returns \<open>exn + 'a\<close>, and
    \<open>Inl e\<close> travels up until an \<open>except\<close> clause of the source catches it;
  \<open>print\<close> is not modelled;
  \<^item> what the libraries compute (the Markdown renderer, the JSON decoder, the clock,
    the date conversion, the escapes of a regular-expression replacement) is not part of
    the repository: it is a parameter, collected in the record \<open>lib\<close>.
\<close>

subsection \<open>Exceptions, the file system, the libraries\<close>

datatype exn =
    FileNotFoundError
  | IsADirectoryError
  | NotADirectoryError
  | FileExistsError
  | TypeError
  | AttributeError
  | UnicodeDecodeError
  | ReError

text \<open>
  A path names a regular file or a directory. A regular file has a modification time,
  and either a text (\<open>File\<close>) or bytes that are not text in UTF-8 (\<open>Bytes\<close>), which
  Python cannot read in text mode. The file system is an association list from paths
  to nodes; a path is a key as written (no normalisation, no links), and the order of
  the list stands for the arbitrary order in which \<open>os.listdir\<close> enumerates a
  directory.
\<close>

datatype node = File string int | Bytes int | Dir

type_synonym fs = "(string \<times> node) list"

datatype json =
    JNull
  | JBool bool
  | JNum int
  | JStr string
  | JArr "json list"
  | JObj "(string \<times> json) list"

text \<open>
  The libraries. \<open>markdown\<close> is \<open>markdown2.markdown\<close> with the two extras;
  \<open>json_load\<close> is \<open>json.load\<close> on the text of a file, \<open>None\<close> for
  \<open>JSONDecodeError\<close>; \<open>py_str\<close> is the text an f-string writes for a decoded value
  that is not a string; \<open>compile_template\<close> is the compiler of \<open>re\<close> for a replacement
  that contains a backslash: \<open>None\<close> when it raises \<open>re.error\<close>, and otherwise the
  function from the matched text and the text of group 1 to the replacement;
  \<open>fromtimestamp\<close> is \<open>datetime.fromtimestamp\<close> (\<open>None\<close> when it raises), a
  \<open>datetime\<close> being read as an integer on the time line of the local clock;
  \<open>strftime\<close> formats it as "%B %d, %Y"; \<open>now\<close> is the modification time the
  system gives a path that the run writes.
\<close>

record lib =
  markdown :: "string \<Rightarrow> string"
  json_load :: "string \<Rightarrow> json option"
  py_str :: "json \<Rightarrow> string"
  compile_template :: "string \<Rightarrow> (string \<Rightarrow> string option \<Rightarrow> string) option"
  fromtimestamp :: "int \<Rightarrow> int option"
  strftime :: "int \<Rightarrow> string"
  now :: "string \<Rightarrow> int"

definition path_exists :: "fs \<Rightarrow> string \<Rightarrow> bool" where
  "path_exists fs p = (map_of fs p \<noteq> None)"

definition isdir :: "fs \<Rightarrow> string \<Rightarrow> bool" where
  "isdir fs p = (map_of fs p = Some Dir)"

text \<open>
  The paths above \<open>p\<close>: what stands before each of its slashes. A path that runs
  through a regular file names nothing, and the system answers \<open>ENOTDIR\<close> for it.
\<close>

definition ancestors :: "string \<Rightarrow> string list" where
  "ancestors p = map (\<lambda>i. take i p) (filter (\<lambda>i. p ! i = CHR ''/'') [0..<length p])"

definition is_regular :: "node option \<Rightarrow> bool" where
  "is_regular n = (case n of Some (File text t) \<Rightarrow> True | Some (Bytes t) \<Rightarrow> True | _ \<Rightarrow> False)"

definition through_file :: "fs \<Rightarrow> string \<Rightarrow> bool" where
  "through_file fs p = list_ex (\<lambda>q. is_regular (map_of fs q)) (ancestors p)"

text \<open>
  \<open>open(p, 'r')\<close> followed by \<open>read()\<close>. A path that names nothing raises
  \<open>NotADirectoryError\<close> when it runs through a regular file and
  \<open>FileNotFoundError\<close> otherwise; a directory cannot be opened; bytes that are not
  text raise \<open>UnicodeDecodeError\<close> when they are read.
\<close>

definition open_read :: "fs \<Rightarrow> string \<Rightarrow> exn + string" where
  "open_read fs p =
     (case map_of fs p of
        None \<Rightarrow> (if through_file fs p then Inl NotADirectoryError else Inl FileNotFoundError)
      | Some Dir \<Rightarrow> Inl IsADirectoryError
      | Some (Bytes t) \<Rightarrow> Inl UnicodeDecodeError
      | Some (File text t) \<Rightarrow> Inr text)"

text \<open>The directory part of a path: what stands before its last slash.\<close>

definition parent :: "string \<Rightarrow> string" where
  "parent p = rev (drop 1 (dropWhile (\<lambda>c. c \<noteq> CHR ''/'') (rev p)))"

text \<open>
  \<open>open(p, 'w')\<close> followed by \<open>write(text)\<close>: the file is created or replaced as a
  whole, and gets the modification time \<open>t\<close>. A new file needs its directory.
\<close>

definition open_write :: "fs \<Rightarrow> string \<Rightarrow> string \<Rightarrow> int \<Rightarrow> fs \<times> (exn + unit)" where
  "open_write fs p text t =
     (case map_of fs p of
        Some Dir \<Rightarrow> (fs, Inl IsADirectoryError)
      | Some (File old t0) \<Rightarrow> (AList.update p (File text t) fs, Inr ())
      | Some (Bytes t0) \<Rightarrow> (AList.update p (File text t) fs, Inr ())
      | None \<Rightarrow>
          (if through_file fs p then (fs, Inl NotADirectoryError)
           else if parent p = [] \<or> map_of fs (parent p) = Some Dir
           then (AList.update p (File text t) fs, Inr ())
           else (fs, Inl FileNotFoundError)))"

text \<open>\<open>os.makedirs(p, exist_ok=True)\<close> for a path of one component, as \<open>main\<close> calls it.\<close>

definition makedirs :: "fs \<Rightarrow> string \<Rightarrow> fs \<times> (exn + unit)" where
  "makedirs fs p =
     (case map_of fs p of
        Some Dir \<Rightarrow> (fs, Inr ())
      | Some (File text t) \<Rightarrow> (fs, Inl FileExistsError)
      | Some (Bytes t) \<Rightarrow> (fs, Inl FileExistsError)
      | None \<Rightarrow> (AList.update p Dir fs, Inr ()))"

text \<open>\<open>os.listdir(d)\<close>: the names of the entries directly inside \<open>d\<close>.\<close>

definition is_child :: "string \<Rightarrow> string \<Rightarrow> bool" where
  "is_child d p =
     (prefix (d @ ''/'') p \<and> drop (length d + 1) p \<noteq> []
      \<and> CHR ''/'' \<notin> set (drop (length d + 1) p))"

definition listdir :: "fs \<Rightarrow> string \<Rightarrow> exn + string list" where
  "listdir fs d =
     (case map_of fs d of
        None \<Rightarrow> (if through_file fs d then Inl NotADirectoryError else Inl FileNotFoundError)
      | Some (File text t) \<Rightarrow> Inl NotADirectoryError
      | Some (Bytes t) \<Rightarrow> Inl NotADirectoryError
      | Some Dir \<Rightarrow> Inr (map (drop (length d + 1)) (filter (is_child d) (map fst fs))))"

subsection \<open>Paths and strings\<close>

text \<open>\<open>os.path.basename\<close>, \<open>os.path.splitext\<close> and \<open>os.path.join\<close> of \<open>posixpath\<close>.\<close>

definition basename :: "string \<Rightarrow> string" where
  "basename p = rev (takeWhile (\<lambda>c. c \<noteq> CHR ''/'') (rev p))"

text \<open>
  The extension starts at the last dot of the last component, unless only dots stand
  before it there (\<open>.bashrc\<close> has no extension).
\<close>

definition splitext :: "string \<Rightarrow> string \<times> string" where
  "splitext p =
     (let name = basename p;
          ext = rev (takeWhile (\<lambda>c. c \<noteq> CHR ''.'') (rev name));
          stem = take (length name - length ext - 1) name
      in if CHR ''.'' \<in> set name \<and> list_ex (\<lambda>c. c \<noteq> CHR ''.'') stem
         then (take (length p - length ext - 1) p, drop (length p - length ext - 1) p)
         else (p, []))"

definition join :: "string \<Rightarrow> string \<Rightarrow> string" where
  "join a b =
     (if prefix ''/'' b then b
      else if a = [] \<or> suffix ''/'' a then a @ b
      else a @ ''/'' @ b)"

text \<open>\<open>str.isspace\<close> on one character, and \<open>str.strip()\<close>.\<close>

definition isspace :: "char \<Rightarrow> bool" where
  "isspace c = (of_char c \<in> {9, 10, 11, 12, 13, 28, 29, 30, 31, 32, 133, 160 :: nat})"

definition strip :: "string \<Rightarrow> string" where
  "strip s = rev (dropWhile isspace (rev (dropWhile isspace s)))"

text \<open>
  \<open>s.replace(old, new)\<close>: every occurrence of \<open>old\<close>, from the left, without
  overlap. The source only replaces non-empty tokens; for an empty \<open>old\<close> the model
  leaves \<open>s\<close> as it is.
\<close>

fun str_replace :: "string \<Rightarrow> string \<Rightarrow> string \<Rightarrow> string" where
  "str_replace old new [] = []"
| "str_replace old new (c # cs) =
     (if old \<noteq> [] \<and> prefix old (c # cs)
      then new @ str_replace old new (drop (length old - 1) cs)
      else c # str_replace old new cs)"

subsection \<open>The regular expressions of the source\<close>

text \<open>
  Every pattern of the source is a literal text, then a lazy repetition of a character
  class, then a literal text. \<open>lazy_until ok lit s\<close> matches \<open>X*?lit\<close> at the start
  of \<open>s\<close>, where \<open>ok\<close> is the class \<open>X\<close>: it returns the shortest run of \<open>X\<close>
  characters that \<open>lit\<close> follows, and the text after \<open>lit\<close>.
\<close>

fun lazy_until :: "(char \<Rightarrow> bool) \<Rightarrow> string \<Rightarrow> string \<Rightarrow> (string \<times> string) option" where
  "lazy_until ok lit [] = (if lit = [] then Some ([], []) else None)"
| "lazy_until ok lit (c # cs) =
     (if prefix lit (c # cs) then Some ([], drop (length lit) (c # cs))
      else if ok c then map_option (\<lambda>(x, r). (c # x, r)) (lazy_until ok lit cs)
      else None)"

definition any_char :: "char \<Rightarrow> bool" where
  "any_char c = True"

definition not_newline :: "char \<Rightarrow> bool" where
  "not_newline c = (c \<noteq> CHR 0x0A)"

text \<open>
  \<open>re.search(r'^#\s+(.*)', md_content, re.MULTILINE)\<close>, group 1. \<open>bol\<close> says that
  the position is the start of the text or follows a newline. \<open>\s+\<close> is greedy and
  takes newlines too; \<open>(.*)\<close> then takes the rest of the line.
\<close>

fun search_heading :: "bool \<Rightarrow> string \<Rightarrow> string option" where
  "search_heading bol [] = None"
| "search_heading bol (c # cs) =
     (if bol \<and> c = CHR ''#'' \<and> cs \<noteq> [] \<and> isspace (hd cs)
      then Some (takeWhile not_newline (dropWhile isspace cs))
      else search_heading (c = CHR 0x0A) cs)"

subsection \<open>\<open>create_blog_post\<close>\<close>

definition output_path_of :: "string \<Rightarrow> string \<Rightarrow> string" where
  "output_path_of md_file_path output_dir =
     join output_dir (fst (splitext (basename md_file_path)) @ ''.html'')"

definition create_blog_post ::
  "lib \<Rightarrow> string \<Rightarrow> string \<Rightarrow> string \<Rightarrow> fs \<Rightarrow> fs \<times> (exn + string option)" where
  "create_blog_post L md_file_path template_path output_dir fs =
     (let output_path = output_path_of md_file_path output_dir in
      if path_exists fs output_path then (fs, Inr (Some output_path))
      else
        (case open_read fs md_file_path of
           Inl FileNotFoundError \<Rightarrow> (fs, Inr None)
         | Inl e \<Rightarrow> (fs, Inl e)
         | Inr md_content \<Rightarrow>
             (case open_read fs template_path of
                Inl FileNotFoundError \<Rightarrow> (fs, Inr None)
              | Inl e \<Rightarrow> (fs, Inl e)
              | Inr template_html \<Rightarrow>
                  (let title = (case search_heading True md_content of
                                  Some g \<Rightarrow> strip g
                                | None \<Rightarrow> ''Untitled Post'');
                       html_content = markdown L md_content;
                       final_html = str_replace ''<!-- BLOG_CONTENT_PLACEHOLDER -->'' html_content
                                      (str_replace ''<!-- BLOG_TITLE_PLACEHOLDER -->'' title template_html)
                   in case open_write fs output_path final_html (now L output_path) of
                        (fs', Inl e) \<Rightarrow> (fs', Inl e)
                      | (fs', Inr u) \<Rightarrow> (fs', Inr (Some output_path))))))"

subsection \<open>\<open>update_index_html\<close>\<close>

definition placeholder_start :: "string \<Rightarrow> string" where
  "placeholder_start placeholder = ''<!-- '' @ placeholder @ ''_START -->''"

definition placeholder_end :: "string \<Rightarrow> string" where
  "placeholder_end placeholder = ''<!-- '' @ placeholder @ ''_END -->''"

text \<open>
  The characters that do not stand for themselves in a regular expression. The pattern
  of \<open>update_index_html\<close> is built from the placeholder's name; the embedding reads it
  for a name without such characters, as both names of \<open>main\<close> are.
\<close>

definition regex_special :: "char \<Rightarrow> bool" where
  "regex_special c = (c \<in> set ''.^$*+?{}[]|()'' \<or> c = CHR 0x5C)"

definition plain_name :: "string \<Rightarrow> bool" where
  "plain_name placeholder = (\<not> list_ex regex_special placeholder)"

text \<open>
  The pattern \<open>START(.|\n)*?END\<close> at the start of \<open>s\<close>: the text between the
  markers and the text after the match.
\<close>

definition match_markers :: "string \<Rightarrow> string \<Rightarrow> (string \<times> string) option" where
  "match_markers placeholder s =
     (if prefix (placeholder_start placeholder) s
      then lazy_until any_char (placeholder_end placeholder)
             (drop (length (placeholder_start placeholder)) s)
      else None)"

lemma lazy_until_length:
  "lazy_until ok lit s = Some (x, r) \<Longrightarrow> length x + length lit + length r = length s"
proof (induction s arbitrary: x r)
  case Nil
  then show ?case by (simp split: if_splits)
next
  case (Cons c cs)
  show ?case
  proof (cases "prefix lit (c # cs)")
    case True
    with Cons.prems have "x = []" and "r = drop (length lit) (c # cs)" by simp_all
    moreover from True have "length lit \<le> length (c # cs)" by (rule prefix_length_le)
    ultimately show ?thesis by simp
  next
    case False
    with Cons.prems obtain x' where "ok c" and "lazy_until ok lit cs = Some (x', r)" and "x = c # x'"
      by (auto split: if_splits)
    with Cons.IH show ?thesis by fastforce
  qed
qed

lemma match_markers_shorter:
  "match_markers placeholder s = Some (region, rest) \<Longrightarrow> length rest < length s"
proof -
  assume m: "match_markers placeholder s = Some (region, rest)"
  then have p: "prefix (placeholder_start placeholder) s"
    by (simp add: match_markers_def split: if_splits)
  from m p have "lazy_until any_char (placeholder_end placeholder)
      (drop (length (placeholder_start placeholder)) s) = Some (region, rest)"
    by (simp add: match_markers_def)
  then have "length rest \<le> length s - length (placeholder_start placeholder)"
    using lazy_until_length by fastforce
  moreover have "0 < length (placeholder_start placeholder)"
    by (simp add: placeholder_start_def)
  moreover from p have "length (placeholder_start placeholder) \<le> length s"
    by (rule prefix_length_le)
  ultimately show ?thesis by linarith
qed

text \<open>
  \<open>re.sub\<close> with that pattern: at each position from the left the pattern is tried;
  a match is replaced by what \<open>repl\<close> makes of the matched text and of group 1 (the
  last character of the region, no group when the region is empty), and the scan goes
  on behind the match; where the pattern fails the character is kept.
\<close>

function re_sub_markers ::
  "string \<Rightarrow> (string \<Rightarrow> string option \<Rightarrow> string) \<Rightarrow> string \<Rightarrow> string" where
  "re_sub_markers placeholder repl [] = []"
| "re_sub_markers placeholder repl (c # cs) =
     (case match_markers placeholder (c # cs) of
        Some (region, rest) \<Rightarrow>
          repl (placeholder_start placeholder @ region @ placeholder_end placeholder)
               (if region = [] then None else Some [last region])
            @ re_sub_markers placeholder repl rest
      | None \<Rightarrow> c # re_sub_markers placeholder repl cs)"
  by pat_completeness auto
termination
proof (relation "measure (\<lambda>(placeholder, repl, s). length s)")
  show "wf (measure (\<lambda>(placeholder, repl, s). length s))" by simp
next
  fix placeholder :: string and repl :: "string \<Rightarrow> string option \<Rightarrow> string"
    and c :: char and cs :: string and x2 region rest
  assume "match_markers placeholder (c # cs) = Some x2" and "(region, rest) = x2"
  then have "length rest < length (c # cs)"
    using match_markers_shorter by metis
  then show "((placeholder, repl, rest), (placeholder, repl, c # cs))
      \<in> measure (\<lambda>(placeholder, repl, s). length s)"
    by simp
next
  fix placeholder :: string and repl :: "string \<Rightarrow> string option \<Rightarrow> string"
    and c :: char and cs :: string
  show "((placeholder, repl, cs), (placeholder, repl, c # cs))
      \<in> measure (\<lambda>(placeholder, repl, s). length s)"
    by simp
qed

text \<open>
  The replacement argument of \<open>re.sub\<close>: a text without a backslash is taken as it
  is; any other goes through the template compiler of \<open>re\<close>, before any match is
  looked for.
\<close>

definition replacement :: "lib \<Rightarrow> string \<Rightarrow> exn + (string \<Rightarrow> string option \<Rightarrow> string)" where
  "replacement L template =
     (if CHR 0x5C \<notin> set template then Inr (\<lambda>m g. template)
      else (case compile_template L template of
              None \<Rightarrow> Inl ReError
            | Some f \<Rightarrow> Inr f))"

definition injected :: "string \<Rightarrow> string \<Rightarrow> string" where
  "injected placeholder content_to_inject =
     placeholder_start placeholder @ ''\<newline>'' @ content_to_inject
       @ ''\<newline>                        '' @ placeholder_end placeholder"

definition update_index_html ::
  "lib \<Rightarrow> string \<Rightarrow> string \<Rightarrow> string \<Rightarrow> fs \<Rightarrow> fs \<times> (exn + unit)" where
  "update_index_html L content_to_inject placeholder index_path fs =
     (case open_read fs index_path of
        Inl FileNotFoundError \<Rightarrow> (fs, Inr ())
      | Inl e \<Rightarrow> (fs, Inl e)
      | Inr index_content \<Rightarrow>
          (case replacement L (injected placeholder content_to_inject) of
             Inl e \<Rightarrow> (fs, Inl e)
           | Inr repl \<Rightarrow>
               open_write fs index_path (re_sub_markers placeholder repl index_content)
                 (now L index_path)))"

subsection \<open>\<open>generate_projects_html\<close>\<close>

text \<open>
  What Python does with a decoded JSON value: its truth value, the elements a
  \<open>for\<close> loop runs over (a list gives its elements, a dict its keys, a string its
  characters, anything else raises \<open>TypeError\<close>), \<open>dict.get\<close> with a default, and
  the text an f-string writes for it.
\<close>

fun truthy :: "json \<Rightarrow> bool" where
  "truthy JNull = False"
| "truthy (JBool b) = b"
| "truthy (JNum n) = (n \<noteq> 0)"
| "truthy (JStr s) = (s \<noteq> [])"
| "truthy (JArr xs) = (xs \<noteq> [])"
| "truthy (JObj kvs) = (kvs \<noteq> [])"

fun py_iter :: "json \<Rightarrow> exn + json list" where
  "py_iter (JArr xs) = Inr xs"
| "py_iter (JObj kvs) = Inr (map (\<lambda>kv. JStr (fst kv)) kvs)"
| "py_iter (JStr s) = Inr (map (\<lambda>c. JStr [c]) s)"
| "py_iter v = Inl TypeError"

definition py_get :: "(string \<times> json) list \<Rightarrow> string \<Rightarrow> json \<Rightarrow> json" where
  "py_get d k dflt = (case map_of d k of Some v \<Rightarrow> v | None \<Rightarrow> dflt)"

definition fmt :: "lib \<Rightarrow> json \<Rightarrow> string" where
  "fmt L v = (case v of JStr s \<Rightarrow> s | _ \<Rightarrow> py_str L v)"

definition tag_span :: "lib \<Rightarrow> json \<Rightarrow> string" where
  \<open>tag_span L tag =
     ''<span class="bg-gray-700 text-xs font-semibold px-2.5 py-1 rounded-full">''
       @ fmt L tag @ ''</span>''\<close>

text \<open>
  The f-strings of lines 93 and 95 to 107, cut at their placeholders: the texts
  between the values they insert.
\<close>

definition button_open :: string where
  \<open>button_open = ''<a href="''\<close>

definition button_link :: string where
  \<open>button_link = ''" target="_blank" class="text-[var(--neon-green)] hover:opacity-80 font-semibold flex items-center space-x-1"><i data-lucide="external-link" class="h-5 w-5"></i><span>Live Demo</span></a>''\<close>

definition card_open :: string where
  \<open>card_open =
     ''\<newline>'' @
     ''                        <div class="project-card glass-card rounded-2xl overflow-hidden group flex flex-col">\<newline>'' @
     ''                            <img src="''\<close>

definition card_alt :: string where
  \<open>card_alt = ''" alt="''\<close>

definition card_heading :: string where
  \<open>card_heading =
     ''" class="w-full h-48 object-cover group-hover:scale-105 transition-transform duration-500">\<newline>'' @
     ''                            <div class="p-6 flex flex-col flex-grow">\<newline>'' @
     ''                                <h3 class="text-xl font-bold text-white mb-2">''\<close>

definition card_text :: string where
  \<open>card_text =
     ''</h3>\<newline>'' @
     ''                                <p class="text-gray-300 mb-4 flex-grow">''\<close>

definition card_tags :: string where
  \<open>card_tags =
     ''</p>\<newline>'' @
     ''                                <div class="flex flex-wrap gap-2 mb-4">''\<close>

definition card_source :: string where
  \<open>card_source =
     ''</div>\<newline>'' @
     ''                                <div class="flex items-center space-x-4 mt-auto">\<newline>'' @
     ''                                    <a href="''\<close>

definition card_source_link :: string where
  \<open>card_source_link =
     ''" target="_blank" class="text-[var(--neon-green)] hover:opacity-80 font-semibold flex items-center space-x-1"><i data-lucide="github" class="h-5 w-5"></i><span>Source Code</span></a>\<newline>'' @
     ''                                    ''\<close>

definition card_close :: string where
  \<open>card_close =
     ''\<newline>'' @
     ''                                </div>\<newline>'' @
     ''                            </div>\<newline>'' @
     ''                        </div>''\<close>

definition live_demo_button :: "lib \<Rightarrow> (string \<times> json) list \<Rightarrow> string" where
  "live_demo_button L project =
     (if truthy (py_get project ''liveDemoUrl'' JNull)
      then button_open @ fmt L (py_get project ''liveDemoUrl'' JNull) @ button_link
      else [])"

text \<open>The block the loop of \<open>generate_projects_html\<close> appends for one project.\<close>

definition card_html :: "lib \<Rightarrow> (string \<times> json) list \<Rightarrow> string \<Rightarrow> string" where
  "card_html L project tags_html =
     card_open
       @ fmt L (py_get project ''image''
                  (JStr ''https://placehold.co/600x300/1f2937/bfff00?text=Project''))
       @ card_alt @ fmt L (py_get project ''title'' (JStr ''Project''))
       @ card_heading @ fmt L (py_get project ''title'' (JStr ''Untitled Project''))
       @ card_text @ fmt L (py_get project ''description'' (JStr []))
       @ card_tags @ tags_html
       @ card_source @ fmt L (py_get project ''sourceCodeUrl'' (JStr ''#''))
       @ card_source_link @ live_demo_button L project
       @ card_close"

text \<open>
  One turn of the loop. \<open>project.get\<close> needs a dict (\<open>AttributeError\<close> otherwise),
  and the tags must be something a loop can run over.
\<close>

definition project_card :: "lib \<Rightarrow> json \<Rightarrow> exn + string" where
  "project_card L p =
     (case p of
        JObj project \<Rightarrow>
          (case py_iter (py_get project ''tags'' (JArr [])) of
             Inl e \<Rightarrow> Inl e
           | Inr tags \<Rightarrow> Inr (card_html L project (concat (map (tag_span L) tags))))
      | _ \<Rightarrow> Inl AttributeError)"

fun projects_loop :: "lib \<Rightarrow> string \<Rightarrow> json list \<Rightarrow> exn + string" where
  "projects_loop L projects_html [] = Inr projects_html"
| "projects_loop L projects_html (p # ps) =
     (case project_card L p of
        Inl e \<Rightarrow> Inl e
      | Inr block \<Rightarrow> projects_loop L (projects_html @ block) ps)"

definition generate_projects_html :: "lib \<Rightarrow> string \<Rightarrow> fs \<Rightarrow> exn + string" where
  "generate_projects_html L projects_json_path fs =
     (case open_read fs projects_json_path of
        Inl FileNotFoundError \<Rightarrow> Inr []
      | Inl e \<Rightarrow> Inl e
      | Inr text \<Rightarrow>
          (case json_load L text of
             None \<Rightarrow> Inr []
           | Some projects \<Rightarrow>
               (case py_iter projects of
                  Inl e \<Rightarrow> Inl e
                | Inr ps \<Rightarrow> projects_loop L [] ps)))"

subsection \<open>\<open>extract_post_details\<close> and \<open>generate_blog_html\<close>\<close>

text \<open>
  \<open>re.search(r'<title>(.*?) \| hxr3tic</title>', content)\<close>, group 1: the pattern is
  tried at each position from the left; the dot does not match a newline.
\<close>

fun search_title :: "string \<Rightarrow> string option" where
  "search_title [] = None"
| "search_title (c # cs) =
     (if prefix ''<title>'' (c # cs)
      then (case lazy_until not_newline '' | hxr3tic</title>'' (drop 7 (c # cs)) of
              Some (g, rest) \<Rightarrow> Some g
            | None \<Rightarrow> search_title cs)
      else search_title cs)"

text \<open>
  \<open>re.search(r'<div class="blog-content">.*?<p>(.*?)</p>', content, re.DOTALL)\<close>,
  group 1. \<open>match_paragraph\<close> is the part \<open>.*?<p>(.*?)</p>\<close> at a fixed position:
  the first lazy run grows until the rest of the pattern matches behind it.
\<close>

fun match_paragraph :: "string \<Rightarrow> string option" where
  "match_paragraph [] = None"
| "match_paragraph (c # cs) =
     (if prefix ''<p>'' (c # cs)
      then (case lazy_until any_char ''</p>'' (drop 3 (c # cs)) of
              Some (g, rest) \<Rightarrow> Some g
            | None \<Rightarrow> match_paragraph cs)
      else match_paragraph cs)"

fun search_description :: "string \<Rightarrow> string option" where
  "search_description [] = None"
| \<open>search_description (c # cs) =
     (if prefix ''<div class="blog-content">'' (c # cs)
      then (case match_paragraph (drop 26 (c # cs)) of
              Some g \<Rightarrow> Some g
            | None \<Rightarrow> search_description cs)
      else search_description cs)\<close>

text \<open>
  The pattern \<open><[^<]+?>\<close> at the start of a text: a \<open><\<close>, one character that is
  not \<open><\<close>, then the shortest run of such characters that a \<open>>\<close> follows. The
  result is the text after the match.
\<close>

definition not_lt :: "char \<Rightarrow> bool" where
  "not_lt c = (c \<noteq> CHR ''<'')"

definition match_tag :: "string \<Rightarrow> string option" where
  "match_tag s =
     (case s of
        c # d # ds \<Rightarrow>
          (if c = CHR ''<'' \<and> not_lt d then map_option snd (lazy_until not_lt ''>'' ds)
           else None)
      | _ \<Rightarrow> None)"

lemma match_tag_shorter: "match_tag s = Some rest \<Longrightarrow> length rest < length s"
proof -
  assume m: "match_tag s = Some rest"
  then obtain c d ds x where s: "s = c # d # ds"
    and l: "lazy_until not_lt ''>'' ds = Some (x, rest)"
    by (auto simp: match_tag_def split: list.splits if_splits)
  from l have "length x + length ''>'' + length rest = length ds"
    by (rule lazy_until_length)
  with s show ?thesis by simp
qed

text \<open>\<open>re.sub('<[^<]+?>', '', description)\<close>.\<close>

function strip_tags :: "string \<Rightarrow> string" where
  "strip_tags [] = []"
| "strip_tags (c # cs) =
     (case match_tag (c # cs) of
        Some rest \<Rightarrow> strip_tags rest
      | None \<Rightarrow> c # strip_tags cs)"
  by pat_completeness auto
termination
proof (relation "measure length")
  show "wf (measure length)" by simp
next
  fix c :: char and cs rest :: string
  assume "match_tag (c # cs) = Some rest"
  then have "length rest < length (c # cs)" by (rule match_tag_shorter)
  then show "(rest, c # cs) \<in> measure length" by simp
next
  fix c :: char and cs :: string
  show "(cs, c # cs) \<in> measure length" by simp
qed

record post =
  title :: string
  description :: string
  path :: string
  date_obj :: int
  date_str :: string

text \<open>
  The description: group 1 stripped, or the fallback; then the tags removed; then,
  past 150 characters, the first 150 stripped again.
\<close>

definition describe :: "string \<Rightarrow> string" where
  "describe content =
     (let d = strip_tags (case search_description content of
                            Some g \<Rightarrow> strip g
                          | None \<Rightarrow> ''Click to read more'')
      in if length d > 150 then strip (take 150 d) else d)"

text \<open>
  Every exception inside \<open>extract_post_details\<close> is caught and gives \<open>None\<close>: a page
  that cannot be opened or read, or a modification time that \<open>fromtimestamp\<close> refuses.
\<close>

definition extract_post_details :: "lib \<Rightarrow> string \<Rightarrow> fs \<Rightarrow> post option" where
  "extract_post_details L html_path fs =
     (case map_of fs html_path of
        Some (File content creation_time) \<Rightarrow>
          (case fromtimestamp L creation_time of
             None \<Rightarrow> None
           | Some d \<Rightarrow>
               Some \<lparr> title = (case search_title content of Some g \<Rightarrow> g | None \<Rightarrow> ''Untitled''),
                      description = describe content,
                      path = ''blog/'' @ basename html_path,
                      date_obj = d,
                      date_str = strftime L d \<rparr>)
      | _ \<Rightarrow> None)"

fun collect_posts :: "lib \<Rightarrow> string \<Rightarrow> fs \<Rightarrow> string list \<Rightarrow> post list" where
  "collect_posts L blog_dir fs [] = []"
| "collect_posts L blog_dir fs (filename # rest) =
     (if suffix ''.html'' filename
      then (case extract_post_details L (join blog_dir filename) fs of
              Some details \<Rightarrow> details # collect_posts L blog_dir fs rest
            | None \<Rightarrow> collect_posts L blog_dir fs rest)
      else collect_posts L blog_dir fs rest)"

text \<open>
  \<open>blog_posts.sort(key=..., reverse=True)\<close>: Python reverses the list, sorts it
  stably in ascending order and reverses the result.
\<close>

definition sort_newest_first :: "post list \<Rightarrow> post list" where
  "sort_newest_first blog_posts = rev (sort_key date_obj (rev blog_posts))"

definition post_entry :: "post \<Rightarrow> string" where
  \<open>post_entry p =
     ''\<newline>'' @
     ''                        <div class="blog-post-entry flex flex-col sm:flex-row items-center gap-8 py-4 border-b border-[var(--border-color-rgba)]">\<newline>'' @
     ''                            <div class="flex-grow">\<newline>'' @
     ''                                <p class="text-sm text-gray-400 mb-2">'' @ date_str p @ ''</p>\<newline>'' @
     ''                                <h3 class="text-xl font-bold text-white mb-2">'' @ title p @ ''</h3>\<newline>'' @
     ''                                <p class="text-gray-300 mb-4">'' @ description p @ ''...</p>\<newline>'' @
     ''                            </div>\<newline>'' @
     ''                            <a href="'' @ path p
       @ ''" class="flex-shrink-0 text-[var(--neon-green)] hover:opacity-80 font-semibold flex items-center space-x-1">\<newline>'' @
     ''                                <span>Read More</span>\<newline>'' @
     ''                                <i data-lucide="arrow-right" class="h-5 w-5"></i>\<newline>'' @
     ''                            </a>\<newline>'' @
     ''                        </div>''\<close>

definition blog_posts_of :: "lib \<Rightarrow> string \<Rightarrow> fs \<Rightarrow> string list \<Rightarrow> post list" where
  "blog_posts_of L blog_dir fs names = sort_newest_first (collect_posts L blog_dir fs names)"

definition generate_blog_html :: "lib \<Rightarrow> string \<Rightarrow> fs \<Rightarrow> exn + string" where
  "generate_blog_html L blog_dir fs =
     (case listdir fs blog_dir of
        Inl e \<Rightarrow> Inl e
      | Inr names \<Rightarrow> Inr (concat (map post_entry (blog_posts_of L blog_dir fs names))))"

subsection \<open>\<open>main\<close>\<close>

definition source_dir :: string where "source_dir = ''blogs_md''"
definition output_dir :: string where "output_dir = ''blog''"
definition template_file :: string where "template_file = ''template.html''"
definition projects_file :: string where "projects_file = ''projects.json''"
definition index_file :: string where "index_file = ''index.html''"

text \<open>The loop of step 1 over the names \<open>os.listdir\<close> gave.\<close>

fun convert_all :: "lib \<Rightarrow> string list \<Rightarrow> fs \<Rightarrow> fs \<times> (exn + unit)" where
  "convert_all L [] fs = (fs, Inr ())"
| "convert_all L (filename # rest) fs =
     (if suffix ''.md'' filename
      then (case create_blog_post L (join source_dir filename) template_file output_dir fs of
              (fs', Inl e) \<Rightarrow> (fs', Inl e)
            | (fs', Inr r) \<Rightarrow> convert_all L rest fs')
      else convert_all L rest fs)"

definition convert_step :: "lib \<Rightarrow> fs \<Rightarrow> fs \<times> (exn + unit)" where
  "convert_step L fs =
     (if isdir fs source_dir
      then (case makedirs fs output_dir of
              (fs', Inl e) \<Rightarrow> (fs', Inl e)
            | (fs', Inr u) \<Rightarrow>
                (case listdir fs' source_dir of
                   Inl e \<Rightarrow> (fs', Inl e)
                 | Inr names \<Rightarrow> convert_all L names fs'))
      else (fs, Inr ()))"

definition projects_step :: "lib \<Rightarrow> fs \<Rightarrow> fs \<times> (exn + unit)" where
  "projects_step L fs =
     (case generate_projects_html L projects_file fs of
        Inl e \<Rightarrow> (fs, Inl e)
      | Inr projects_html_content \<Rightarrow>
          (if projects_html_content \<noteq> []
           then update_index_html L projects_html_content ''PROJECTS_PLACEHOLDER'' index_file fs
           else (fs, Inr ())))"

definition blog_step :: "lib \<Rightarrow> fs \<Rightarrow> fs \<times> (exn + unit)" where
  "blog_step L fs =
     (if isdir fs output_dir
      then (case generate_blog_html L output_dir fs of
              Inl e \<Rightarrow> (fs, Inl e)
            | Inr blog_html_content \<Rightarrow>
                (if blog_html_content \<noteq> []
                 then update_index_html L blog_html_content ''BLOG_POSTS_PLACEHOLDER'' index_file fs
                 else (fs, Inr ())))
      else (fs, Inr ()))"

definition main :: "lib \<Rightarrow> fs \<Rightarrow> fs \<times> (exn + unit)" where
  "main L fs =
     (case convert_step L fs of
        (fs1, Inl e) \<Rightarrow> (fs1, Inl e)
      | (fs1, Inr u) \<Rightarrow>
          (case projects_step L fs1 of
             (fs2, Inl e) \<Rightarrow> (fs2, Inl e)
           | (fs2, Inr u) \<Rightarrow> blog_step L fs2))"

subsection \<open>Occurrences of a text\<close>

text \<open>
  The number of positions of \<open>s\<close> at which \<open>pat\<close> starts. It is used to say that a
  marker stands exactly once in the index page, and that a link text stands once in a
  fragment.
\<close>

fun occurrences :: "string \<Rightarrow> string \<Rightarrow> nat" where
  "occurrences pat [] = 0"
| "occurrences pat (c # cs) = (if prefix pat (c # cs) then 1 else 0) + occurrences pat cs"

text \<open>
  Whether the pattern of \<open>update_index_html\<close> matches at some position of \<open>s\<close>.
\<close>

fun has_region :: "string \<Rightarrow> string \<Rightarrow> bool" where
  "has_region placeholder [] = False"
| "has_region placeholder (c # cs) =
     (match_markers placeholder (c # cs) \<noteq> None \<or> has_region placeholder cs)"

subsection \<open>Sample sites\<close>

text \<open>
  A library and a few small file systems on which the model is run. The sample
  renderer wraps the text in a paragraph, the sample decoder knows three texts (the
  empty list, a list of one project with a title, and that project alone, not in a
  list), no replacement with a backslash is accepted, and times are kept as they are.
\<close>

definition demo_lib :: lib where
  "demo_lib =
     \<lparr> markdown = (\<lambda>s. ''<p>'' @ s @ ''</p>''),
       json_load = (\<lambda>s. if s = ''[]'' then Some (JArr [])
                         else if s = ''[{\"title\": \"Site\"}]''
                         then Some (JArr [JObj [(''title'', JStr ''Site'')]])
                         else if s = ''{\"title\": \"Site\"}''
                         then Some (JObj [(''title'', JStr ''Site'')])
                         else None),
       py_str = (\<lambda>v. ''None''),
       compile_template = (\<lambda>s. None),
       fromtimestamp = Some,
       strftime = (\<lambda>d. ''January 01, 1970''),
       now = (\<lambda>p. 100) \<rparr>"

text \<open>A site whose page exists while its source and the template are gone.\<close>

definition site_built :: fs where
  "site_built = [(''blog'', Dir), (''blog/hello.html'', File ''old page'' 2)]"

text \<open>A site with one post and no template.\<close>

definition site_no_template :: fs where
  "site_no_template =
     [(''blogs_md'', Dir), (''blogs_md/hello.md'', File ''# Hi'' 1), (''blog'', Dir)]"

text \<open>A site whose source directory holds a directory named like a post.\<close>

definition site_dir_source :: fs where
  "site_dir_source =
     [(''blogs_md'', Dir), (''blogs_md/notes.md'', Dir), (''template.html'', File ''T'' 1)]"

text \<open>A site before its first run: one post and a template with both tokens.\<close>

definition site_fresh :: fs where
  "site_fresh =
     [(''blogs_md'', Dir), (''blogs_md/hello.md'', File ''# Hi'' 1),
      (''template.html'',
       File ''<t><!-- BLOG_TITLE_PLACEHOLDER --></t><!-- BLOG_CONTENT_PLACEHOLDER -->'' 1)]"

text \<open>A site whose project records are not valid JSON.\<close>

definition site_bad_json :: fs where
  "site_bad_json = [(''projects.json'', File ''[{'' 1)]"

text \<open>A site with an empty list of projects, no posts, and stale content in the index.\<close>

definition site_empty_lists :: fs where
  "site_empty_lists =
     [(''projects.json'', File ''[]'' 1), (''blog'', Dir),
      (''index.html'',
       File ''<!-- PROJECTS_PLACEHOLDER_START -->stale<!-- PROJECTS_PLACEHOLDER_END -->'' 1)]"

text \<open>An index page with the region of the projects, marked as \<open>main\<close> names it.\<close>

definition site_index :: fs where
  "site_index =
     [(''projects.json'', File ''[{\"title\": \"Site\"}]'' 1),
      (''index.html'',
       File (''<h1>Projects</h1>'' @ placeholder_start ''PROJECTS_PLACEHOLDER'' @ ''old''
             @ placeholder_end ''PROJECTS_PLACEHOLDER'' @ ''<footer>'') 1)]"

text \<open>An index page whose markers are named \<open>PROJECTS_START\<close> and \<open>PROJECTS_END\<close>.\<close>

definition site_short_markers :: fs where
  "site_short_markers =
     [(''projects.json'', File ''[{\"title\": \"Site\"}]'' 1),
      (''index.html'', File ''<!-- PROJECTS_START -->old<!-- PROJECTS_END -->'' 1)]"

text \<open>An index page that holds the pair of markers twice.\<close>

definition twice_marked :: string where
  "twice_marked =
     placeholder_start ''PROJECTS_PLACEHOLDER'' @ ''one'' @ placeholder_end ''PROJECTS_PLACEHOLDER''
     @ ''<hr>''
     @ placeholder_start ''PROJECTS_PLACEHOLDER'' @ ''two'' @ placeholder_end ''PROJECTS_PLACEHOLDER''"

definition site_twice_marked :: fs where
  "site_twice_marked = [(''index.html'', File twice_marked 1)]"

text \<open>An index page with an end marker before the start marker.\<close>

definition site_wrong_order :: fs where
  "site_wrong_order =
     [(''index.html'',
       File (placeholder_end ''PROJECTS_PLACEHOLDER'' @ ''old''
             @ placeholder_start ''PROJECTS_PLACEHOLDER'') 1)]"

text \<open>
  Two rendered pages with a long first paragraph: 151 letters, and 149 letters, a
  space and ten more letters.
\<close>

definition page_long :: string where
  \<open>page_long = ''<div class="blog-content"><p>'' @ replicate 151 CHR ''a'' @ ''</p></div>''\<close>

definition page_space :: string where
  \<open>page_space = ''<div class="blog-content"><p>'' @ replicate 149 CHR ''a'' @ '' ''
       @ replicate 10 CHR ''b'' @ ''</p></div>''\<close>

text \<open>Two project records: one with a live demo, one whose field is the empty string.\<close>

definition project_with_demo :: "(string \<times> json) list" where
  "project_with_demo = [(''title'', JStr ''Site''), (''liveDemoUrl'', JStr ''https://x.io'')]"

definition project_empty_demo :: "(string \<times> json) list" where
  "project_empty_demo = [(''title'', JStr ''Site''), (''liveDemoUrl'', JStr [])]"




text \<open>
  Three sites whose project records are there and are not a list of records in UTF-8:
  a single record that is not in a list, bytes that are not text, and a path below a
  regular file.
\<close>

definition site_object_json :: fs where
  "site_object_json = [(''projects.json'', File ''{\"title\": \"Site\"}'' 1)]"

definition site_bytes_json :: fs where
  "site_bytes_json = [(''projects.json'', Bytes 1)]"

definition site_below_file :: fs where
  "site_below_file = [(''data'', File ''notes'' 1)]"





section \<open>Properties\<close>

subsection \<open>What a run leaves alone\<close>

lemma open_write_other:
  "p \<noteq> q \<Longrightarrow> map_of (fst (open_write fs q text t)) p = map_of fs p"
  by (simp add: open_write_def update_conv' split: option.splits node.splits)

lemma open_write_result_cases:
  "open_write fs q text t = (fs', r) \<Longrightarrow> fs' = fs \<or> fs' = AList.update q (File text t) fs"
  by (auto simp: open_write_def split: option.splits node.splits if_splits)

lemma create_blog_post_cases:
  "fst (create_blog_post L md tpl out fs) = fs \<or>
   (\<not> path_exists fs (output_path_of md out) \<and>
    (\<exists>text t. fst (create_blog_post L md tpl out fs)
       = AList.update (output_path_of md out) (File text t) fs))"
  unfolding create_blog_post_def Let_def
  by (auto split: sum.splits exn.splits prod.splits dest: open_write_result_cases)

lemma create_blog_post_keeps:
  assumes "map_of fs p = Some n"
  shows "map_of (fst (create_blog_post L md tpl out fs)) p = Some n"
proof -
  from create_blog_post_cases [of L md tpl out fs] show ?thesis
  proof
    assume "fst (create_blog_post L md tpl out fs) = fs"
    with assms show ?thesis by simp
  next
    assume a: "\<not> path_exists fs (output_path_of md out) \<and>
      (\<exists>text t. fst (create_blog_post L md tpl out fs)
         = AList.update (output_path_of md out) (File text t) fs)"
    with assms have "p \<noteq> output_path_of md out" by (auto simp: path_exists_def)
    with a assms show ?thesis by (auto simp: update_conv')
  qed
qed

lemma convert_all_keeps:
  "map_of fs p = Some n \<Longrightarrow> map_of (fst (convert_all L names fs)) p = Some n"
proof (induction names arbitrary: fs)
  case Nil
  then show ?case by simp
next
  case (Cons filename rest)
  show ?case
  proof (cases "suffix ''.md'' filename")
    case False
    with Cons show ?thesis by simp
  next
    case True
    obtain fs' r where
      c: "create_blog_post L (join source_dir filename) template_file output_dir fs = (fs', r)"
      by (cases "create_blog_post L (join source_dir filename) template_file output_dir fs")
    with Cons.prems have k: "map_of fs' p = Some n"
      using create_blog_post_keeps [of fs p n L "join source_dir filename" template_file output_dir]
      by simp
    show ?thesis
    proof (cases r)
      case (Inl e)
      with True c k show ?thesis by simp
    next
      case (Inr v)
      with True c k Cons.IH [of fs'] show ?thesis by simp
    qed
  qed
qed

lemma makedirs_keeps:
  "map_of fs p = Some n \<Longrightarrow> map_of (fst (makedirs fs d)) p = Some n"
  by (auto simp: makedirs_def update_conv' split: option.splits node.splits)

lemma convert_step_keeps:
  assumes "map_of fs p = Some n"
  shows "map_of (fst (convert_step L fs)) p = Some n"
proof (cases "isdir fs source_dir")
  case False
  with assms show ?thesis by (simp add: convert_step_def)
next
  case True
  obtain fs' r where m: "makedirs fs output_dir = (fs', r)" by (cases "makedirs fs output_dir")
  with assms have k: "map_of fs' p = Some n" using makedirs_keeps [of fs p n output_dir] by simp
  show ?thesis
  proof (cases r)
    case (Inl e)
    with True m k show ?thesis by (simp add: convert_step_def)
  next
    case (Inr u)
    show ?thesis
    proof (cases "listdir fs' source_dir")
      case (Inl e)
      with True m k Inr show ?thesis by (simp add: convert_step_def)
    next
      case names: (Inr names)
      with True m k Inr convert_all_keeps [of fs' p n L names] show ?thesis
        by (simp add: convert_step_def)
    qed
  qed
qed

lemma update_index_html_other:
  "p \<noteq> index_path \<Longrightarrow>
   map_of (fst (update_index_html L content placeholder index_path fs)) p = map_of fs p"
  unfolding update_index_html_def
  by (auto split: sum.splits exn.splits simp: open_write_other)

lemma projects_step_other:
  "p \<noteq> index_file \<Longrightarrow> map_of (fst (projects_step L fs)) p = map_of fs p"
  unfolding projects_step_def
  by (auto split: sum.splits simp: update_index_html_other)

lemma blog_step_other:
  "p \<noteq> index_file \<Longrightarrow> map_of (fst (blog_step L fs)) p = map_of fs p"
  unfolding blog_step_def
  by (auto split: sum.splits simp: update_index_html_other)

lemma main_keeps:
  assumes "map_of fs p = Some n" and "p \<noteq> index_file"
  shows "map_of (fst (main L fs)) p = Some n"
proof -
  obtain fs1 r1 where s1: "convert_step L fs = (fs1, r1)" by (cases "convert_step L fs")
  obtain fs2 r2 where s2: "projects_step L fs1 = (fs2, r2)" by (cases "projects_step L fs1")
  from assms(1) s1 have k1: "map_of fs1 p = Some n"
    using convert_step_keeps [of fs p n L] by simp
  from assms(2) s2 k1 have k2: "map_of fs2 p = Some n"
    using projects_step_other [of p L fs1] by simp
  from assms(2) k2 have k3: "map_of (fst (blog_step L fs2)) p = Some n"
    using blog_step_other [of p L fs2] by simp
  show ?thesis
    using s1 s2 k1 k2 k3 by (cases r1; cases r2) (simp_all add: main_def)
qed

subsection \<open>\<open>create_blog_post\<close>: an output that exists, a file that is missing\<close>

text \<open>
  C10. When something already exists at the output path, \<open>create_blog_post\<close> returns
  that path at once and changes nothing. Nothing is assumed about the source and the
  template: they are not looked at, so the call succeeds also when they are missing or
  cannot be read. The second part says it outright: the result is the same on every
  file system that agrees with this one at the output path alone.
\<close>

theorem create_blog_post_skips_existing_output:
  assumes "path_exists fs (output_path_of md_file_path out)"
  shows "create_blog_post L md_file_path template_path out fs
           = (fs, Inr (Some (output_path_of md_file_path out)))
       \<and> (\<forall>fs'. map_of fs' (output_path_of md_file_path out)
                   = map_of fs (output_path_of md_file_path out)
              \<longrightarrow> create_blog_post L md_file_path template_path out fs'
                    = (fs', Inr (Some (output_path_of md_file_path out))))"
proof (intro conjI allI impI)
  from assms show "create_blog_post L md_file_path template_path out fs
      = (fs, Inr (Some (output_path_of md_file_path out)))"
    by (simp add: create_blog_post_def)
next
  fix fs' :: fs
  assume "map_of fs' (output_path_of md_file_path out)
      = map_of fs (output_path_of md_file_path out)"
  with assms have "path_exists fs' (output_path_of md_file_path out)"
    by (simp add: path_exists_def)
  then show "create_blog_post L md_file_path template_path out fs'
      = (fs', Inr (Some (output_path_of md_file_path out)))"
    by (simp add: create_blog_post_def)
qed

theorem create_blog_post_skips_existing_output_witness:
  "open_read site_built ''blogs_md/hello.md'' = Inl FileNotFoundError
   \<and> open_read site_built ''template.html'' = Inl FileNotFoundError
   \<and> create_blog_post demo_lib ''blogs_md/hello.md'' ''template.html'' ''blog'' site_built
       = (site_built, Inr (Some ''blog/hello.html''))"
proof -
  have o: "output_path_of ''blogs_md/hello.md'' ''blog'' = ''blog/hello.html''"
    by code_simp
  have e: "path_exists site_built (output_path_of ''blogs_md/hello.md'' ''blog'')"
    unfolding o by (simp add: path_exists_def site_built_def)
  have m: "open_read site_built ''blogs_md/hello.md'' = Inl FileNotFoundError" by code_simp
  have t: "open_read site_built ''template.html'' = Inl FileNotFoundError" by code_simp
  show ?thesis
    using create_blog_post_skips_existing_output [OF e, of demo_lib "''template.html''"] o m t
    by simp
qed

text \<open>
  What the two \<open>except FileNotFoundError\<close> clauses give. When the output path does
  not exist and opening the source raises \<open>FileNotFoundError\<close>, or the source is read
  and opening the template raises \<open>FileNotFoundError\<close>, \<open>create_blog_post\<close>
  returns \<open>None\<close> and leaves the file system as it was, and the loop of \<open>main\<close>
  goes on with the remaining names.
\<close>

lemma create_blog_post_missing_file:
  assumes "\<not> path_exists fs (output_path_of md out)"
    and "open_read fs md = Inl FileNotFoundError
         \<or> (open_read fs md = Inr text \<and> open_read fs tpl = Inl FileNotFoundError)"
  shows "create_blog_post L md tpl out fs = (fs, Inr None)
       \<and> (md = join source_dir filename \<and> tpl = template_file \<and> out = output_dir
            \<and> suffix ''.md'' filename
          \<longrightarrow> convert_all L (filename # rest) fs = convert_all L rest fs)"
proof -
  from assms(2) have "create_blog_post L md tpl out fs = (fs, Inr None)"
  proof
    assume "open_read fs md = Inl FileNotFoundError"
    with assms(1) show ?thesis by (simp add: create_blog_post_def)
  next
    assume "open_read fs md = Inr text \<and> open_read fs tpl = Inl FileNotFoundError"
    with assms(1) show ?thesis by (simp add: create_blog_post_def)
  qed
  then show ?thesis by auto
qed

lemma create_blog_post_missing_file_example:
  "create_blog_post demo_lib ''blogs_md/hello.md'' ''template.html'' ''blog'' site_no_template
     = (site_no_template, Inr None)
   \<and> convert_all demo_lib [''hello.md''] site_no_template = (site_no_template, Inr ())
   \<and> main demo_lib site_no_template = (site_no_template, Inr ())"
proof -
  have o: "output_path_of ''blogs_md/hello.md'' ''blog'' = ''blog/hello.html''"
    by code_simp
  have j: "join source_dir ''hello.md'' = ''blogs_md/hello.md''" by code_simp
  have a: "\<not> path_exists site_no_template (output_path_of ''blogs_md/hello.md'' ''blog'')"
    unfolding o by (simp add: path_exists_def site_no_template_def)
  have r: "open_read site_no_template ''blogs_md/hello.md'' = Inr ''# Hi''" by code_simp
  have n: "open_read site_no_template ''template.html'' = Inl FileNotFoundError" by code_simp
  from r n have b: "open_read site_no_template ''blogs_md/hello.md'' = Inl FileNotFoundError
     \<or> (open_read site_no_template ''blogs_md/hello.md'' = Inr ''# Hi''
         \<and> open_read site_no_template ''template.html'' = Inl FileNotFoundError)"
    by simp
  have s: "suffix ''.md'' ''hello.md''" by code_simp
  note t = create_blog_post_missing_file [OF a b, of demo_lib "''hello.md''" "[]"]
  from t have c:
    "create_blog_post demo_lib ''blogs_md/hello.md'' ''template.html'' ''blog'' site_no_template
     = (site_no_template, Inr None)" by simp
  from t j s have l:
    "convert_all demo_lib [''hello.md''] site_no_template = (site_no_template, Inr ())"
    by (simp add: template_file_def output_dir_def)
  have m: "main demo_lib site_no_template = (site_no_template, Inr ())"
    by code_simp
  from c l m show ?thesis by simp
qed

text \<open>
  C7. The claim, and the docstring of \<open>create_blog_post\<close> ("Returns the path to the
  created file if successful, otherwise None"), say that a source or template that
  cannot be opened gives \<open>None\<close> and lets the run continue. The code does so for a
  missing file only. A directory named \<open>notes.md\<close> inside the source directory
  cannot be opened: \<open>open\<close> raises \<open>IsADirectoryError\<close>, which no clause catches;
  \<open>create_blog_post\<close> does not return, and \<open>main\<close> ends with the exception. A
  source path below a regular file raises \<open>NotADirectoryError\<close> in the same way.
\<close>

theorem create_blog_post_directory_source_raises:
  "\<not> path_exists site_dir_source (output_path_of ''blogs_md/notes.md'' ''blog'')
   \<and> open_read site_dir_source ''blogs_md/notes.md'' = Inl IsADirectoryError
   \<and> create_blog_post demo_lib ''blogs_md/notes.md'' ''template.html'' ''blog'' site_dir_source
       = (site_dir_source, Inl IsADirectoryError)
   \<and> snd (main demo_lib site_dir_source) = Inl IsADirectoryError
   \<and> create_blog_post demo_lib ''data/notes.md'' ''template.html'' ''blog'' site_below_file
       = (site_below_file, Inl NotADirectoryError)"
  by code_simp

subsection \<open>\<open>main\<close>: pages that exist, fragments that are empty\<close>

text \<open>
  C2. A file that exists is never written again by the conversion. If \<open>p\<close> exists and
  is the output path computed for a source, \<open>create_blog_post\<close> returns \<open>p\<close> and
  leaves the file system as it is; and a whole run of \<open>main\<close> leaves every existing
  path other than the index file with the node (text and modification time) it had.
  This holds for every file system, so for the one a first run left behind, whatever
  happened to the sources since: a second run leaves each generated page as it was.
\<close>

theorem existing_page_is_never_rewritten:
  assumes "map_of fs p = Some n"
  shows "(p = output_path_of md out
            \<longrightarrow> create_blog_post L md tpl out fs = (fs, Inr (Some p)))
       \<and> (p \<noteq> index_file \<longrightarrow> map_of (fst (main L fs)) p = Some n)"
proof (intro conjI impI)
  assume "p = output_path_of md out"
  with assms have "path_exists fs (output_path_of md out)" by (simp add: path_exists_def)
  then have "create_blog_post L md tpl out fs = (fs, Inr (Some (output_path_of md out)))"
    by (simp add: create_blog_post_def)
  with \<open>p = output_path_of md out\<close> show "create_blog_post L md tpl out fs = (fs, Inr (Some p))"
    by simp
next
  assume "p \<noteq> index_file"
  with assms show "map_of (fst (main L fs)) p = Some n" by (rule main_keeps)
qed

theorem existing_page_is_never_rewritten_witness:
  "map_of (fst (main demo_lib site_fresh)) ''blog/hello.html''
     = Some (File ''<t>Hi</t><p># Hi</p>'' 100)
   \<and> map_of (fst (main demo_lib
         (AList.update ''blogs_md/hello.md'' (File ''# Changed'' 50)
            (fst (main demo_lib site_fresh))))) ''blog/hello.html''
     = Some (File ''<t>Hi</t><p># Hi</p>'' 100)"
proof -
  have first: "map_of (fst (main demo_lib site_fresh)) ''blog/hello.html''
     = Some (File ''<t>Hi</t><p># Hi</p>'' 100)"
    by code_simp
  have edited: "map_of (AList.update ''blogs_md/hello.md'' (File ''# Changed'' 50)
       (fst (main demo_lib site_fresh))) ''blog/hello.html''
     = Some (File ''<t>Hi</t><p># Hi</p>'' 100)"
    by code_simp
  have other: "''blog/hello.html'' \<noteq> index_file" by code_simp
  from existing_page_is_never_rewritten [OF edited, of "''blogs_md/hello.md''" "''blog''"
      demo_lib "''template.html''"] other first
  show ?thesis by simp
qed

text \<open>
  What the two \<open>except\<close> clauses of \<open>generate_projects_html\<close> give. When opening
  the project records file raises \<open>FileNotFoundError\<close>, or its text is not valid
  JSON, the fragment is empty. Step 2 of \<open>main\<close> then ends without an error and
  without touching the file system, and the run goes on with step 3.
\<close>

lemma generate_projects_html_missing_or_invalid:
  assumes "open_read fs p = Inl FileNotFoundError
           \<or> (open_read fs p = Inr text \<and> json_load L text = None)"
  shows "generate_projects_html L p fs = Inr []
       \<and> (p = projects_file \<longrightarrow> projects_step L fs = (fs, Inr ()))
       \<and> (p = projects_file \<and> convert_step L fs0 = (fs, Inr ())
            \<longrightarrow> main L fs0 = blog_step L fs)"
proof -
  from assms have g: "generate_projects_html L p fs = Inr []"
    by (auto simp: generate_projects_html_def)
  then have s: "p = projects_file \<longrightarrow> projects_step L fs = (fs, Inr ())"
    by (auto simp: projects_step_def)
  then have "p = projects_file \<and> convert_step L fs0 = (fs, Inr ())
      \<longrightarrow> main L fs0 = blog_step L fs"
    by (auto simp: main_def)
  with g s show ?thesis by simp
qed

lemma generate_projects_html_missing_or_invalid_example:
  "generate_projects_html demo_lib ''projects.json'' site_no_template = Inr []
   \<and> generate_projects_html demo_lib ''projects.json'' site_bad_json = Inr []
   \<and> projects_step demo_lib site_bad_json = (site_bad_json, Inr ())
   \<and> main demo_lib site_bad_json = blog_step demo_lib site_bad_json"
proof -
  have "open_read site_no_template ''projects.json'' = Inl FileNotFoundError" by code_simp
  then have a: "open_read site_no_template ''projects.json'' = Inl FileNotFoundError
      \<or> (open_read site_no_template ''projects.json'' = Inr []
          \<and> json_load demo_lib [] = None)"
    by simp
  have "open_read site_bad_json ''projects.json'' = Inr ''[{''" by code_simp
  moreover have "json_load demo_lib ''[{'' = None" by code_simp
  ultimately have b: "open_read site_bad_json ''projects.json'' = Inl FileNotFoundError
      \<or> (open_read site_bad_json ''projects.json'' = Inr ''[{''
          \<and> json_load demo_lib ''[{'' = None)"
    by simp
  have c: "convert_step demo_lib site_bad_json = (site_bad_json, Inr ())"
    by code_simp
  have f: "projects_file = ''projects.json''" by (simp add: projects_file_def)
  from generate_projects_html_missing_or_invalid [OF a]
       generate_projects_html_missing_or_invalid [OF b, of site_bad_json] c f
  show ?thesis by simp
qed

text \<open>
  C8. The claim says that a project records file that is missing or holds invalid
  structured data gives the empty fragment and never ends the run. The code catches
  \<open>FileNotFoundError\<close> and \<open>JSONDecodeError\<close> only. A file that holds one record
  that is not in a list is valid JSON of the wrong shape: the loop runs over the keys
  of the record, \<open>project.get\<close> raises \<open>AttributeError\<close> on the first key, and
  \<open>main\<close> ends with the exception. Bytes that are not text raise
  \<open>UnicodeDecodeError\<close>, and a path below a regular file raises
  \<open>NotADirectoryError\<close>, in the same way.
\<close>

theorem generate_projects_html_wrong_shape_raises:
  "open_read site_object_json projects_file = Inr ''{\"title\": \"Site\"}''
   \<and> generate_projects_html demo_lib projects_file site_object_json = Inl AttributeError
   \<and> main demo_lib site_object_json = (site_object_json, Inl AttributeError)
   \<and> generate_projects_html demo_lib projects_file site_bytes_json = Inl UnicodeDecodeError
   \<and> main demo_lib site_bytes_json = (site_bytes_json, Inl UnicodeDecodeError)
   \<and> generate_projects_html demo_lib ''data/projects.json'' site_below_file
       = Inl NotADirectoryError"
  by code_simp

text \<open>
  C9. An empty fragment is not injected. Let \<open>fs1\<close> be the file system after step 1.
  If the projects fragment is empty, step 2 leaves \<open>fs1\<close> as it is and the run is
  step 3 on \<open>fs1\<close>; if step 2 ended in \<open>fs2\<close> and the blog fragment is empty, the
  run ends in \<open>fs2\<close>. In both cases \<open>update_index_html\<close> is not called for that
  region, so the index file keeps what it has there.
\<close>

theorem empty_fragment_is_not_injected:
  assumes "convert_step L fs = (fs1, Inr ())"
  shows "(generate_projects_html L projects_file fs1 = Inr []
            \<longrightarrow> projects_step L fs1 = (fs1, Inr ()) \<and> main L fs = blog_step L fs1)
       \<and> (projects_step L fs1 = (fs2, Inr ()) \<and> generate_blog_html L output_dir fs2 = Inr []
            \<longrightarrow> blog_step L fs2 = (fs2, Inr ()) \<and> main L fs = (fs2, Inr ()))"
proof (intro conjI impI)
  assume g: "generate_projects_html L projects_file fs1 = Inr []"
  then show p: "projects_step L fs1 = (fs1, Inr ())" by (simp add: projects_step_def)
  with assms show "main L fs = blog_step L fs1" by (simp add: main_def)
next
  assume a: "projects_step L fs1 = (fs2, Inr ()) \<and> generate_blog_html L output_dir fs2 = Inr []"
  then show b: "blog_step L fs2 = (fs2, Inr ())" by (simp add: blog_step_def)
  with assms a show "main L fs = (fs2, Inr ())" by (simp add: main_def)
qed

theorem empty_fragment_is_not_injected_witness:
  "generate_projects_html demo_lib projects_file site_empty_lists = Inr []
   \<and> generate_blog_html demo_lib output_dir site_empty_lists = Inr []
   \<and> main demo_lib site_empty_lists = (site_empty_lists, Inr ())
   \<and> open_read site_empty_lists index_file
       = Inr ''<!-- PROJECTS_PLACEHOLDER_START -->stale<!-- PROJECTS_PLACEHOLDER_END -->''"
proof -
  have c: "convert_step demo_lib site_empty_lists = (site_empty_lists, Inr ())"
    by code_simp
  have g: "generate_projects_html demo_lib projects_file site_empty_lists = Inr []"
    by code_simp
  have b: "generate_blog_html demo_lib output_dir site_empty_lists = Inr []"
    by code_simp
  have r: "open_read site_empty_lists index_file
       = Inr ''<!-- PROJECTS_PLACEHOLDER_START -->stale<!-- PROJECTS_PLACEHOLDER_END -->''"
    by code_simp
  from empty_fragment_is_not_injected [OF c, of site_empty_lists] g b r
  show ?thesis by simp
qed

subsection \<open>\<open>update_index_html\<close>: the region between the markers\<close>

lemma lazy_until_decomp:
  "lazy_until ok lit s = Some (x, r) \<Longrightarrow> s = x @ lit @ r"
proof (induction s arbitrary: x r)
  case Nil
  then show ?case by (simp split: if_splits)
next
  case (Cons c cs)
  show ?case
  proof (cases "prefix lit (c # cs)")
    case True
    with Cons.prems have "x = []" and "r = drop (length lit) (c # cs)" by simp_all
    moreover from True obtain w where "c # cs = lit @ w" by (auto simp: prefix_def)
    ultimately show ?thesis by simp
  next
    case False
    with Cons.prems obtain x' where "lazy_until ok lit cs = Some (x', r)" and "x = c # x'"
      by (auto split: if_splits)
    with Cons.IH show ?thesis by fastforce
  qed
qed

lemma placeholder_start_not_Nil: "placeholder_start placeholder \<noteq> []"
  by (simp add: placeholder_start_def)

lemma placeholder_end_not_Nil: "placeholder_end placeholder \<noteq> []"
  by (simp add: placeholder_end_def)

lemma match_markers_decomp:
  assumes "match_markers placeholder s = Some (region, rest)"
  shows "s = placeholder_start placeholder @ region @ placeholder_end placeholder @ rest"
proof -
  from assms have p: "prefix (placeholder_start placeholder) s"
    by (simp add: match_markers_def split: if_splits)
  with assms have "lazy_until any_char (placeholder_end placeholder)
      (drop (length (placeholder_start placeholder)) s) = Some (region, rest)"
    by (simp add: match_markers_def)
  then have "drop (length (placeholder_start placeholder)) s
      = region @ placeholder_end placeholder @ rest"
    by (rule lazy_until_decomp)
  moreover from p obtain w where "s = placeholder_start placeholder @ w"
    by (auto simp: prefix_def)
  ultimately show ?thesis by simp
qed

lemma re_sub_markers_no_region:
  assumes "\<not> (\<exists>a region b. s = a @ placeholder_start placeholder @ region
                           @ placeholder_end placeholder @ b)"
  shows "re_sub_markers placeholder repl s = s"
  using assms
proof (induction s)
  case Nil
  show ?case by simp
next
  case (Cons c cs)
  have none: "match_markers placeholder (c # cs) = None"
  proof (cases "match_markers placeholder (c # cs)")
    case None
    then show ?thesis .
  next
    case (Some m)
    obtain region rest where "m = (region, rest)" by (cases m)
    with Some have "c # cs = [] @ placeholder_start placeholder @ region
        @ placeholder_end placeholder @ rest"
      using match_markers_decomp by simp
    with Cons.prems show ?thesis by blast
  qed
  have "\<not> (\<exists>a region b. cs = a @ placeholder_start placeholder @ region
                           @ placeholder_end placeholder @ b)"
  proof
    assume "\<exists>a region b. cs = a @ placeholder_start placeholder @ region
                           @ placeholder_end placeholder @ b"
    then obtain a region b where "cs = a @ placeholder_start placeholder @ region
                           @ placeholder_end placeholder @ b" by blast
    then have "c # cs = (c # a) @ placeholder_start placeholder @ region
                           @ placeholder_end placeholder @ b" by simp
    with Cons.prems show False by blast
  qed
  with Cons.IH have "re_sub_markers placeholder repl cs = cs" .
  with none show ?case by simp
qed

lemma occurrences_suffix_le: "occurrences p b \<le> occurrences p (a @ b)"
  by (induction a) (simp_all add: le_SucI trans_le_add2)

lemma occurrences_at_head:
  assumes "p \<noteq> []"
  shows "1 + occurrences p b \<le> occurrences p (p @ b)"
proof -
  from assms obtain c p' where p: "p = c # p'" by (cases p) auto
  have "occurrences p (p @ b) = 1 + occurrences p (p' @ b)" by (simp add: p)
  moreover have "occurrences p b \<le> occurrences p (p' @ b)" by (rule occurrences_suffix_le)
  ultimately show ?thesis by simp
qed

lemma occurrences_inside:
  assumes "p \<noteq> []"
  shows "1 + occurrences p b \<le> occurrences p (a @ p @ b)"
  using occurrences_at_head [OF assms, of b] occurrences_suffix_le [of p "p @ b" a]
  by simp

lemma any_char_holds: "any_char c"
  by (simp add: any_char_def)

lemma lazy_until_first:
  assumes "lit \<noteq> []" and "occurrences lit (x @ lit @ r) = 1"
  shows "lazy_until any_char lit (x @ lit @ r) = Some (x, r)"
  using assms(2)
proof (induction x)
  case Nil
  from assms(1) obtain c l where "lit = c # l" by (cases lit) auto
  then show ?case by simp
next
  case (Cons c x)
  have ge: "1 \<le> occurrences lit (x @ lit @ r)"
    using occurrences_inside [OF assms(1), of r x] by simp
  with Cons.prems have np: "\<not> prefix lit (c # x @ lit @ r)"
    by (auto split: if_splits)
  with Cons.prems have "occurrences lit (x @ lit @ r) = 1" by simp
  with Cons.IH have "lazy_until any_char lit (x @ lit @ r) = Some (x, r)" .
  with np any_char_holds [of c] show ?case by simp
qed

lemma re_sub_markers_no_start:
  "occurrences (placeholder_start placeholder) s = 0 \<Longrightarrow> re_sub_markers placeholder repl s = s"
proof (induction s)
  case Nil
  show ?case by simp
next
  case (Cons c cs)
  then have "\<not> prefix (placeholder_start placeholder) (c # cs)"
    and "occurrences (placeholder_start placeholder) cs = 0"
    by (auto split: if_splits)
  with Cons.IH show ?case by (simp add: match_markers_def)
qed

lemma re_sub_markers_skip:
  assumes "occurrences (placeholder_start placeholder) (pre @ placeholder_start placeholder @ w) = 1"
  shows "re_sub_markers placeholder repl (pre @ placeholder_start placeholder @ w)
       = pre @ re_sub_markers placeholder repl (placeholder_start placeholder @ w)"
  using assms
proof (induction pre)
  case Nil
  show ?case by simp
next
  case (Cons c pre)
  have "1 \<le> occurrences (placeholder_start placeholder) (pre @ placeholder_start placeholder @ w)"
    using occurrences_inside [OF placeholder_start_not_Nil, of placeholder w pre] by simp
  with Cons.prems have np: "\<not> prefix (placeholder_start placeholder)
      (c # pre @ placeholder_start placeholder @ w)"
    and one: "occurrences (placeholder_start placeholder) (pre @ placeholder_start placeholder @ w) = 1"
    by (auto split: if_splits)
  from np have "match_markers placeholder (c # pre @ placeholder_start placeholder @ w) = None"
    by (simp add: match_markers_def)
  with Cons.IH [OF one] show ?case by simp
qed

lemma re_sub_markers_unique_region:
  assumes s: "s = pre @ placeholder_start placeholder @ region @ placeholder_end placeholder @ post"
    and one_start: "occurrences (placeholder_start placeholder) s = 1"
    and one_end: "occurrences (placeholder_end placeholder) s = 1"
  shows "re_sub_markers placeholder (\<lambda>m g. r) s = pre @ r @ post"
proof -
  let ?S = "placeholder_start placeholder" and ?E = "placeholder_end placeholder"
  let ?w = "region @ ?E @ post"
  have skip: "re_sub_markers placeholder (\<lambda>m g. r) s
      = pre @ re_sub_markers placeholder (\<lambda>m g. r) (?S @ ?w)"
    using one_start unfolding s by (rule re_sub_markers_skip)
  have "occurrences ?E ?w \<le> occurrences ?E s"
    using occurrences_suffix_le [of ?E ?w "pre @ ?S"] by (simp add: s)
  moreover have "1 \<le> occurrences ?E ?w"
    using occurrences_inside [OF placeholder_end_not_Nil, of placeholder post region] by simp
  ultimately have "occurrences ?E ?w = 1" using one_end by simp
  then have first: "lazy_until any_char ?E ?w = Some (region, post)"
    using lazy_until_first [OF placeholder_end_not_Nil] by simp
  have m: "match_markers placeholder (?S @ ?w) = Some (region, post)"
    using first by (simp add: match_markers_def)
  have "1 + occurrences ?S ?w \<le> occurrences ?S s"
    using occurrences_inside [OF placeholder_start_not_Nil, of placeholder ?w pre]
    by (simp add: s)
  with one_start have "occurrences ?S ?w = 0" by simp
  moreover have "occurrences ?S post \<le> occurrences ?S ?w"
    using occurrences_suffix_le [of ?S post "region @ ?E"] by simp
  ultimately have "occurrences ?S post = 0" by simp
  then have rest: "re_sub_markers placeholder (\<lambda>m g. r) post = post"
    by (rule re_sub_markers_no_start)
  obtain c cs where cons: "?S @ ?w = c # cs"
    using placeholder_start_not_Nil [of placeholder] by (cases "?S @ ?w") auto
  have "re_sub_markers placeholder (\<lambda>m g. r) (c # cs)
      = r @ re_sub_markers placeholder (\<lambda>m g. r) post"
    using m unfolding cons by simp
  with cons rest have "re_sub_markers placeholder (\<lambda>m g. r) (?S @ ?w) = r @ post"
    by simp
  with skip show ?thesis by simp
qed

lemma plain_name_no_backslash: "plain_name placeholder \<Longrightarrow> CHR 0x5C \<notin> set placeholder"
  by (auto simp: plain_name_def regex_special_def list_ex_iff)

lemma replacement_literal:
  assumes "plain_name placeholder" and "CHR 0x5C \<notin> set content_to_inject"
  shows "replacement L (injected placeholder content_to_inject)
       = Inr (\<lambda>m g. injected placeholder content_to_inject)"
proof -
  from assms have "CHR 0x5C \<notin> set (injected placeholder content_to_inject)"
    using plain_name_no_backslash [of placeholder]
    by (simp add: injected_def placeholder_start_def placeholder_end_def)
  then show ?thesis by (simp add: replacement_def)
qed

lemma open_write_existing:
  "open_read fs p = Inr old \<Longrightarrow>
   open_write fs p text t = (AList.update p (File text t) fs, Inr ())"
  by (auto simp: open_read_def open_write_def split: option.splits node.splits if_splits)

lemma update_index_html_literal:
  assumes "open_read fs index_path = Inr index_content"
    and "plain_name placeholder" and "CHR 0x5C \<notin> set content_to_inject"
  shows "update_index_html L content_to_inject placeholder index_path fs
       = (AList.update index_path
            (File (re_sub_markers placeholder (\<lambda>m g. injected placeholder content_to_inject)
                     index_content) (now L index_path)) fs, Inr ())"
  using assms replacement_literal [OF assms(2,3), of L] open_write_existing [OF assms(1)]
  by (simp add: update_index_html_def)

lemma plain_projects_placeholder: "plain_name ''PROJECTS_PLACEHOLDER''"
  by code_simp

text \<open>
  C3, as the code has it. The claim promises no change whenever the markers are not
  there exactly once each in order, duplicated markers included. What the code gives:
  when the page holds no start marker that an end marker follows (a marker is absent,
  or the end marker stands before the start marker only), the substitution matches
  nothing, and the file is written back with the text it had. (The placeholder is a
  plain name and the content has no backslash, so that the pattern and the replacement
  are read literally.)
\<close>

theorem update_index_html_without_region:
  assumes "open_read fs index_path = Inr index_content"
    and "plain_name placeholder"
    and "CHR 0x5C \<notin> set content_to_inject"
    and "\<not> (\<exists>a region b. index_content
              = a @ placeholder_start placeholder @ region @ placeholder_end placeholder @ b)"
  shows "update_index_html L content_to_inject placeholder index_path fs
         = (AList.update index_path (File index_content (now L index_path)) fs, Inr ())"
proof -
  have "re_sub_markers placeholder (\<lambda>m g. injected placeholder content_to_inject) index_content
      = index_content"
    using assms(4) by (rule re_sub_markers_no_region)
  with update_index_html_literal [OF assms(1-3), of L] show ?thesis by simp
qed

lemma lazy_until_any_finds:
  "lazy_until any_char lit (x @ lit @ r) \<noteq> None"
proof (induction x)
  case Nil
  show ?case
  proof (cases "lit @ r")
    case Nil
    then show ?thesis by simp
  next
    case (Cons a list)
    have "prefix lit (lit @ r)" by simp
    with Cons have "prefix lit (a # list)" by simp
    with Cons show ?thesis by simp
  qed
next
  case (Cons c x)
  with any_char_holds [of c] show ?case by auto
qed

lemma has_region_iff:
  "has_region placeholder s
   \<longleftrightarrow> (\<exists>a region b. s = a @ placeholder_start placeholder @ region
                          @ placeholder_end placeholder @ b)"
proof
  show "has_region placeholder s \<Longrightarrow>
    \<exists>a region b. s = a @ placeholder_start placeholder @ region @ placeholder_end placeholder @ b"
  proof (induction s)
    case Nil
    then show ?case by simp
  next
    case (Cons c cs)
    show ?case
    proof (cases "match_markers placeholder (c # cs)")
      case (Some m)
      obtain region rest where "m = (region, rest)" by (cases m)
      with Some have "c # cs = [] @ placeholder_start placeholder @ region
          @ placeholder_end placeholder @ rest"
        using match_markers_decomp by simp
      then show ?thesis by blast
    next
      case None
      with Cons.prems have "has_region placeholder cs" by simp
      with Cons.IH obtain a region b where
        "cs = a @ placeholder_start placeholder @ region @ placeholder_end placeholder @ b"
        by blast
      then have "c # cs = (c # a) @ placeholder_start placeholder @ region
          @ placeholder_end placeholder @ b" by simp
      then show ?thesis by blast
    qed
  qed
next
  assume "\<exists>a region b. s = a @ placeholder_start placeholder @ region
                          @ placeholder_end placeholder @ b"
  then obtain a region b where
    s: "s = a @ placeholder_start placeholder @ region @ placeholder_end placeholder @ b"
    by blast
  have "has_region placeholder (a @ placeholder_start placeholder @ region
      @ placeholder_end placeholder @ b)"
  proof (induction a)
    case Nil
    obtain c cs where cons: "placeholder_start placeholder @ region
        @ placeholder_end placeholder @ b = c # cs"
      using placeholder_start_not_Nil [of placeholder]
      by (cases "placeholder_start placeholder @ region @ placeholder_end placeholder @ b") auto
    have "match_markers placeholder (placeholder_start placeholder @ region
        @ placeholder_end placeholder @ b) \<noteq> None"
      using lazy_until_any_finds [of "placeholder_end placeholder" region b]
      by (simp add: match_markers_def)
    then show ?case unfolding append_Nil cons by simp
  next
    case (Cons c a)
    then show ?case by simp
  qed
  with s show "has_region placeholder s" by simp
qed

theorem update_index_html_without_region_witness:
  "update_index_html demo_lib ''<b>new</b>'' ''PROJECTS_PLACEHOLDER'' ''index.html'' site_wrong_order
   = ([(''index.html'',
        File (placeholder_end ''PROJECTS_PLACEHOLDER'' @ ''old''
              @ placeholder_start ''PROJECTS_PLACEHOLDER'') 100)], Inr ())"
proof -
  let ?s = "placeholder_end ''PROJECTS_PLACEHOLDER'' @ ''old''
              @ placeholder_start ''PROJECTS_PLACEHOLDER''"
  have r: "open_read site_wrong_order ''index.html'' = Inr ?s"
    by (simp add: open_read_def site_wrong_order_def)
  have b: "CHR 0x5C \<notin> set ''<b>new</b>''" by simp
  have "\<not> has_region ''PROJECTS_PLACEHOLDER'' ?s" by code_simp
  then have n: "\<not> (\<exists>a region b. ?s = a @ placeholder_start ''PROJECTS_PLACEHOLDER'' @ region
                          @ placeholder_end ''PROJECTS_PLACEHOLDER'' @ b)"
    using has_region_iff [of "''PROJECTS_PLACEHOLDER''" ?s] by blast
  have u: "AList.update ''index.html'' (File ?s (now demo_lib ''index.html'')) site_wrong_order
      = [(''index.html'', File ?s 100)]"
    by (simp add: site_wrong_order_def demo_lib_def)
  from update_index_html_without_region [OF r plain_projects_placeholder b n, of demo_lib] u
  show ?thesis by simp
qed

text \<open>
  C3 as stated fails for duplicated markers: a page that holds the pair twice has
  both regions replaced.
\<close>

theorem update_index_html_duplicated_markers_counterexample:
  "occurrences (placeholder_start ''PROJECTS_PLACEHOLDER'') twice_marked = 2
   \<and> occurrences (placeholder_end ''PROJECTS_PLACEHOLDER'') twice_marked = 2
   \<and> open_read (fst (update_index_html demo_lib ''new'' ''PROJECTS_PLACEHOLDER'' ''index.html''
          site_twice_marked)) ''index.html''
       = Inr (injected ''PROJECTS_PLACEHOLDER'' ''new'' @ ''<hr>''
              @ injected ''PROJECTS_PLACEHOLDER'' ''new'')
   \<and> injected ''PROJECTS_PLACEHOLDER'' ''new'' @ ''<hr>'' @ injected ''PROJECTS_PLACEHOLDER'' ''new''
       \<noteq> twice_marked"
  by code_simp

text \<open>
  C1, as the code has it. The markers of the projects region are
  \<open><!-- PROJECTS_PLACEHOLDER_START -->\<close> and \<open><!-- PROJECTS_PLACEHOLDER_END -->\<close>.
  When the index page holds each of them exactly once, the start marker first, and the
  generated fragment is not empty and has no backslash, step 2 of \<open>main\<close> leaves the
  page as: the text before the start marker, the start marker, a newline, the fragment,
  a newline and 24 spaces, the end marker, the text after it.
\<close>

theorem projects_injection_replaces_region:
  assumes "open_read fs index_file = Inr index_content"
    and "index_content = pre @ placeholder_start ''PROJECTS_PLACEHOLDER'' @ region
           @ placeholder_end ''PROJECTS_PLACEHOLDER'' @ post"
    and "occurrences (placeholder_start ''PROJECTS_PLACEHOLDER'') index_content = 1"
    and "occurrences (placeholder_end ''PROJECTS_PLACEHOLDER'') index_content = 1"
    and "generate_projects_html L projects_file fs = Inr fragment"
    and "fragment \<noteq> []"
    and "CHR 0x5C \<notin> set fragment"
  shows "projects_step L fs
         = (AList.update index_file
              (File (pre @ placeholder_start ''PROJECTS_PLACEHOLDER'' @ ''\<newline>'' @ fragment
                       @ ''\<newline>                        ''
                       @ placeholder_end ''PROJECTS_PLACEHOLDER'' @ post)
                    (now L index_file)) fs, Inr ())"
proof -
  have "re_sub_markers ''PROJECTS_PLACEHOLDER''
          (\<lambda>m g. injected ''PROJECTS_PLACEHOLDER'' fragment) index_content
        = pre @ injected ''PROJECTS_PLACEHOLDER'' fragment @ post"
    using assms(2-4) by (rule re_sub_markers_unique_region)
  with update_index_html_literal [OF assms(1) plain_projects_placeholder assms(7), of L]
  have "update_index_html L fragment ''PROJECTS_PLACEHOLDER'' index_file fs
        = (AList.update index_file
             (File (pre @ injected ''PROJECTS_PLACEHOLDER'' fragment @ post) (now L index_file)) fs,
           Inr ())"
    by simp
  with assms(5,6) show ?thesis
    by (simp add: projects_step_def injected_def)
qed

theorem projects_injection_replaces_region_witness:
  "projects_step demo_lib site_index
   = ([(''projects.json'', File ''[{\"title\": \"Site\"}]'' 1),
       (''index.html'',
        File (''<h1>Projects</h1>'' @ placeholder_start ''PROJECTS_PLACEHOLDER'' @ ''\<newline>''
              @ card_html demo_lib [(''title'', JStr ''Site'')] []
              @ ''\<newline>                        ''
              @ placeholder_end ''PROJECTS_PLACEHOLDER'' @ ''<footer>'') 100)], Inr ())"
proof -
  let ?c = "''<h1>Projects</h1>'' @ placeholder_start ''PROJECTS_PLACEHOLDER'' @ ''old''
             @ placeholder_end ''PROJECTS_PLACEHOLDER'' @ ''<footer>''"
  let ?f = "card_html demo_lib [(''title'', JStr ''Site'')] []"
  have r: "open_read site_index index_file = Inr ?c" by code_simp
  have s: "occurrences (placeholder_start ''PROJECTS_PLACEHOLDER'') ?c = 1" by code_simp
  have e: "occurrences (placeholder_end ''PROJECTS_PLACEHOLDER'') ?c = 1" by code_simp
  have g: "generate_projects_html demo_lib projects_file site_index = Inr ?f" by code_simp
  have n: "?f \<noteq> []" by code_simp
  have b: "CHR 0x5C \<notin> set ?f" by code_simp
  have u: "AList.update index_file (File x (now demo_lib index_file)) site_index
      = [(''projects.json'', File ''[{\"title\": \"Site\"}]'' 1), (''index.html'', File x 100)]"
    for x
    by (simp add: site_index_def index_file_def demo_lib_def)
  from projects_injection_replaces_region [OF r refl s e g n b] u
  show ?thesis by simp
qed

text \<open>
  C1 as stated fails: markers named \<open>PROJECTS_START\<close> and \<open>PROJECTS_END\<close> are
  not the ones \<open>main\<close> looks for. The fragment is not empty, the injection runs, and
  the page keeps the text it had.
\<close>

theorem projects_injection_short_names_counterexample:
  "generate_projects_html demo_lib projects_file site_short_markers \<noteq> Inr []
   \<and> snd (projects_step demo_lib site_short_markers) = Inr ()
   \<and> open_read (fst (projects_step demo_lib site_short_markers)) index_file
       = Inr ''<!-- PROJECTS_START -->old<!-- PROJECTS_END -->''"
  by code_simp

subsection \<open>\<open>extract_post_details\<close>: the description\<close>

lemma length_strip_le: "length (strip s) \<le> length s"
proof -
  have "length (strip s) \<le> length (dropWhile isspace s)"
    using length_dropWhile_le [of isspace "rev (dropWhile isspace s)"] by (simp add: strip_def)
  also have "\<dots> \<le> length s" by (rule length_dropWhile_le)
  finally show ?thesis .
qed

lemma strip_unchanged:
  assumes "s \<noteq> []" and "\<not> isspace (hd s)" and "\<not> isspace (last s)"
  shows "strip s = s"
proof -
  from assms(1,2) have a: "dropWhile isspace s = s" by (cases s) simp_all
  from assms(1,3) have "dropWhile isspace (rev s) = rev s"
    by (cases "rev s") (simp_all add: last_rev [symmetric] del: last_rev)
  with a show ?thesis by (simp add: strip_def)
qed

text \<open>
  C4, as the code has it. The claim promises exactly 150 characters; the code strips the
  first 150 characters once more. When the paragraph without its tags is longer than
  150 characters, the description is the first 150 characters of that text with the
  white space at both ends removed: at most 150 characters, and exactly the first 150
  when neither the first nor the 150th character is white space.
\<close>

theorem extract_post_details_long_description:
  assumes "map_of fs html_path = Some (File content t)"
    and "fromtimestamp L t = Some d"
    and "search_description content = Some g"
    and "length (strip_tags (strip g)) > 150"
  shows "\<exists>details. extract_post_details L html_path fs = Some details
           \<and> description details = strip (take 150 (strip_tags (strip g)))
           \<and> length (description details) \<le> 150
           \<and> (\<not> isspace (hd (strip_tags (strip g))) \<and> \<not> isspace (strip_tags (strip g) ! 149)
                \<longrightarrow> description details = take 150 (strip_tags (strip g))
                    \<and> length (description details) = 150)"
proof -
  let ?text = "strip_tags (strip g)"
  let ?d = "strip (take 150 ?text)"
  from assms(3,4) have desc: "describe content = ?d"
    by (simp add: describe_def Let_def)
  have le: "length ?d \<le> 150"
    using length_strip_le [of "take 150 ?text"] by simp
  have exact: "?d = take 150 ?text \<and> length ?d = 150"
    if "\<not> isspace (hd ?text) \<and> \<not> isspace (?text ! 149)"
  proof -
    from assms(4) have ne: "take 150 ?text \<noteq> []" by auto
    from assms(4) have h: "hd (take 150 ?text) = hd ?text" by (cases ?text) auto
    from assms(4) have len: "length (take 150 ?text) = 150" by simp
    have "last (take 150 ?text) = take 150 ?text ! (length (take 150 ?text) - 1)"
      using ne by (rule last_conv_nth)
    also have "\<dots> = take 150 ?text ! 149" unfolding len by simp
    also have "\<dots> = ?text ! 149" by simp
    finally have l: "last (take 150 ?text) = ?text ! 149" .
    from that h l have "strip (take 150 ?text) = take 150 ?text"
      using strip_unchanged [OF ne] by simp
    with assms(4) show ?thesis by simp
  qed
  from assms(1,2) desc have "extract_post_details L html_path fs
      = Some \<lparr> title = (case search_title content of Some g \<Rightarrow> g | None \<Rightarrow> ''Untitled''),
               description = ?d, path = ''blog/'' @ basename html_path,
               date_obj = d, date_str = strftime L d \<rparr>"
    by (simp add: extract_post_details_def)
  with le exact show ?thesis by auto
qed

theorem extract_post_details_long_description_witness:
  "map_option description (extract_post_details demo_lib ''blog/long.html''
       [(''blog/long.html'', File page_long 5)])
   = Some (replicate 150 CHR ''a'')"
proof -
  have m: "map_of [(''blog/long.html'', File page_long 5)] ''blog/long.html''
      = Some (File page_long 5)" by simp
  have f: "fromtimestamp demo_lib 5 = Some 5" by (simp add: demo_lib_def)
  have s: "search_description page_long = Some (replicate 151 CHR ''a'')" by code_simp
  have t: "strip_tags (strip (replicate 151 CHR ''a'')) = replicate 151 CHR ''a''" by code_simp
  have n: "length (strip_tags (strip (replicate 151 CHR ''a''))) > 150" unfolding t by simp
  have e: "\<not> isspace (hd (replicate 151 CHR ''a'')) \<and> \<not> isspace (replicate 151 CHR ''a'' ! 149)"
    by code_simp
  have k: "take 150 (replicate 151 CHR ''a'') = replicate 150 CHR ''a''" by simp
  from extract_post_details_long_description [OF m f s n] t e k
  show ?thesis by auto
qed

text \<open>
  C4 as stated fails when the 150th character is a space: of a paragraph of 149
  letters, a space and ten letters, the description keeps the 149 letters.
\<close>

theorem extract_post_details_trailing_space_counterexample:
  "search_description page_space
     = Some (replicate 149 CHR ''a'' @ '' '' @ replicate 10 CHR ''b'')
   \<and> length (strip_tags (strip (replicate 149 CHR ''a'' @ '' '' @ replicate 10 CHR ''b''))) = 160
   \<and> map_option (\<lambda>p. length (description p))
        (extract_post_details demo_lib ''blog/post.html'' [(''blog/post.html'', File page_space 5)])
     = Some 149"
  by code_simp

subsection \<open>\<open>generate_projects_html\<close>: the link to the live demo\<close>

text \<open>
  A character that does not occur in a text separates its occurrences: none of them
  reaches across it.
\<close>

lemma prefix_separator:
  assumes "c \<notin> set p"
  shows "prefix p (a @ c # b) \<longleftrightarrow> prefix p a"
proof
  assume "prefix p (a @ c # b)"
  then consider "prefix p a" | us where "p = a @ us" and "prefix us (c # b)"
    by (auto simp: prefix_append)
  then show "prefix p a"
  proof cases
    case 1
    then show ?thesis .
  next
    case 2
    with assms have "us = []" by (cases us) auto
    with 2 show ?thesis by simp
  qed
next
  assume "prefix p a"
  then show "prefix p (a @ c # b)" by (rule prefix_prefix)
qed

lemma occurrences_separator:
  assumes "c \<notin> set p" and "p \<noteq> []"
  shows "occurrences p (a @ c # b) = occurrences p a + occurrences p b"
proof (induction a)
  case Nil
  from assms obtain x p' where "p = x # p'" and "x \<noteq> c" by (cases p) auto
  then show ?case by simp
next
  case (Cons x a)
  have "prefix p (x # a @ c # b) \<longleftrightarrow> prefix p (x # a)"
    using prefix_separator [OF assms(1), of "x # a" b] by simp
  with Cons show ?case by simp
qed

lemma tags_have_no_link:
  assumes "\<forall>tag\<in>set tags. occurrences ''Live Demo'' (fmt L tag) = 0"
  shows "occurrences ''Live Demo'' (concat (map (tag_span L) tags) @ rest)
       = occurrences ''Live Demo'' rest"
  using assms
proof (induction tags)
  case Nil
  show ?case by simp
next
  case (Cons tag tags)
  then show ?case
    by (simp add: tag_span_def occurrences_separator)
qed

lemma card_open_has_no_link:
  "occurrences ''Live Demo'' (card_open @ rest) = occurrences ''Live Demo'' rest"
  by (simp add: card_open_def)

lemma card_alt_has_no_link:
  "occurrences ''Live Demo'' (f @ card_alt @ rest)
   = occurrences ''Live Demo'' f + occurrences ''Live Demo'' rest"
  by (simp add: card_alt_def occurrences_separator)

lemma card_heading_has_no_link:
  "occurrences ''Live Demo'' (f @ card_heading @ rest)
   = occurrences ''Live Demo'' f + occurrences ''Live Demo'' rest"
  by (simp add: card_heading_def occurrences_separator)

lemma card_text_has_no_link:
  "occurrences ''Live Demo'' (f @ card_text @ rest)
   = occurrences ''Live Demo'' f + occurrences ''Live Demo'' rest"
  by (simp add: card_text_def occurrences_separator)

lemma card_tags_has_no_link:
  "occurrences ''Live Demo'' (f @ card_tags @ rest)
   = occurrences ''Live Demo'' f + occurrences ''Live Demo'' rest"
  by (simp add: card_tags_def occurrences_separator)

lemma card_source_has_no_link:
  "occurrences ''Live Demo'' (card_source @ rest) = occurrences ''Live Demo'' rest"
  by (simp add: card_source_def)

lemma card_source_link_has_no_link:
  "occurrences ''Live Demo'' (f @ card_source_link @ rest)
   = occurrences ''Live Demo'' f + occurrences ''Live Demo'' rest"
  by (simp add: card_source_link_def occurrences_separator)

lemma card_close_has_no_link: "occurrences ''Live Demo'' card_close = 0"
  by (simp add: card_close_def)

lemma button_open_has_no_link:
  "occurrences ''Live Demo'' (button_open @ rest) = occurrences ''Live Demo'' rest"
  by (simp add: button_open_def)

lemma button_link_has_one_link:
  "occurrences ''Live Demo'' (f @ button_link @ card_close) = occurrences ''Live Demo'' f + 1"
  by (simp add: button_link_def card_close_def occurrences_separator)

lemma field_has_no_link:
  assumes "\<forall>k v. map_of project k = Some v \<longrightarrow> occurrences ''Live Demo'' (fmt L v) = 0"
    and "occurrences ''Live Demo'' dflt = 0"
  shows "occurrences ''Live Demo'' (fmt L (py_get project k (JStr dflt))) = 0"
proof (cases "map_of project k")
  case None
  with assms(2) show ?thesis by (simp add: py_get_def fmt_def)
next
  case (Some v)
  with assms(1) show ?thesis by (simp add: py_get_def)
qed

lemma url_has_no_link:
  assumes "\<forall>k v. map_of project k = Some v \<longrightarrow> occurrences ''Live Demo'' (fmt L v) = 0"
    and "truthy (py_get project ''liveDemoUrl'' JNull)"
  shows "occurrences ''Live Demo'' (fmt L (py_get project ''liveDemoUrl'' JNull)) = 0"
proof (cases "map_of project ''liveDemoUrl''")
  case None
  with assms(2) show ?thesis by (simp add: py_get_def)
next
  case (Some v)
  with assms(1) show ?thesis by (simp add: py_get_def)
qed

lemma card_link_count:
  assumes fields: "\<forall>k v. map_of project k = Some v \<longrightarrow> occurrences ''Live Demo'' (fmt L v) = 0"
    and tags: "\<forall>tag\<in>set tags. occurrences ''Live Demo'' (fmt L tag) = 0"
  shows "occurrences ''Live Demo'' (card_html L project (concat (map (tag_span L) tags)))
       = (if truthy (py_get project ''liveDemoUrl'' JNull) then 1 else 0)"
proof -
  note f = field_has_no_link [OF fields]
  have image: "occurrences ''Live Demo''
      (fmt L (py_get project ''image''
                (JStr ''https://placehold.co/600x300/1f2937/bfff00?text=Project''))) = 0"
    by (rule f) simp
  have alt: "occurrences ''Live Demo'' (fmt L (py_get project ''title'' (JStr ''Project''))) = 0"
    by (rule f) simp
  have heading: "occurrences ''Live Demo''
      (fmt L (py_get project ''title'' (JStr ''Untitled Project''))) = 0"
    by (rule f) simp
  have descr: "occurrences ''Live Demo'' (fmt L (py_get project ''description'' (JStr []))) = 0"
    by (rule f) simp
  have source: "occurrences ''Live Demo'' (fmt L (py_get project ''sourceCodeUrl'' (JStr ''#''))) = 0"
    by (rule f) simp
  note chunks = card_open_has_no_link card_alt_has_no_link card_heading_has_no_link
    card_text_has_no_link card_tags_has_no_link card_source_has_no_link
    card_source_link_has_no_link tags_have_no_link [OF tags]
  show ?thesis
  proof (cases "truthy (py_get project ''liveDemoUrl'' JNull)")
    case True
    note url = url_has_no_link [OF fields True]
    from True show ?thesis
      unfolding card_html_def live_demo_button_def
      by (simp add: chunks button_open_has_no_link button_link_has_one_link
            image alt heading descr source url)
  next
    case False
    then show ?thesis
      unfolding card_html_def live_demo_button_def
      by (simp add: chunks card_close_has_no_link image alt heading descr source)
  qed
qed

text \<open>
  C5, as the code has it. A "Live Demo" link is counted as an occurrence of the text
  \<open>Live Demo\<close> in the block rendered for the record, for a record none of whose
  values (and none of whose tags) contains that text itself. A record without the
  field renders no link. A record with the field renders exactly one link when the
  value counts as true for Python (a non-empty string), and none when it does not (the
  empty string, \<open>null\<close>): the test of line 92 is \<open>if project.get("liveDemoUrl")\<close>.
  The block is also the whole fragment of a file that holds this record alone.
\<close>

theorem live_demo_link_per_record:
  assumes "py_iter (py_get project ''tags'' (JArr [])) = Inr tags"
    and "\<forall>k v. map_of project k = Some v \<longrightarrow> occurrences ''Live Demo'' (fmt L v) = 0"
    and "\<forall>tag\<in>set tags. occurrences ''Live Demo'' (fmt L tag) = 0"
  shows "\<exists>block. project_card L (JObj project) = Inr block
     \<and> (map_of project ''liveDemoUrl'' = None \<longrightarrow> occurrences ''Live Demo'' block = 0)
     \<and> (\<not> truthy (py_get project ''liveDemoUrl'' JNull)
          \<longrightarrow> occurrences ''Live Demo'' block = 0)
     \<and> (truthy (py_get project ''liveDemoUrl'' JNull)
          \<longrightarrow> occurrences ''Live Demo'' block = 1)
     \<and> (\<forall>fs p text. open_read fs p = Inr text \<and> json_load L text = Some (JArr [JObj project])
          \<longrightarrow> generate_projects_html L p fs = Inr block)"
proof -
  let ?block = "card_html L project (concat (map (tag_span L) tags))"
  from assms(1) have card: "project_card L (JObj project) = Inr ?block"
    by (simp add: project_card_def)
  have count: "occurrences ''Live Demo'' ?block
      = (if truthy (py_get project ''liveDemoUrl'' JNull) then 1 else 0)"
    using assms(2,3) by (rule card_link_count)
  have absent: "\<not> truthy (py_get project ''liveDemoUrl'' JNull)"
    if "map_of project ''liveDemoUrl'' = None"
    using that by (simp add: py_get_def)
  have whole: "generate_projects_html L p fs = Inr ?block"
    if "open_read fs p = Inr raw \<and> json_load L raw = Some (JArr [JObj project])"
    for fs p raw
    using that card by (simp add: generate_projects_html_def)
  from card count absent whole show ?thesis by auto
qed

theorem live_demo_link_per_record_witness:
  "project_card demo_lib (JObj project_with_demo)
     = Inr (card_html demo_lib project_with_demo [])
   \<and> occurrences ''Live Demo'' (card_html demo_lib project_with_demo []) = 1"
proof -
  have t: "py_iter (py_get project_with_demo ''tags'' (JArr [])) = Inr []"
    by (simp add: project_with_demo_def py_get_def)
  have f: "\<forall>k v. map_of project_with_demo k = Some v
      \<longrightarrow> occurrences ''Live Demo'' (fmt demo_lib v) = 0"
    by (auto simp: project_with_demo_def fmt_def split: if_splits)
  have g: "\<forall>tag\<in>set []. occurrences ''Live Demo'' (fmt demo_lib tag) = 0" by simp
  have y: "truthy (py_get project_with_demo ''liveDemoUrl'' JNull)"
    by (simp add: project_with_demo_def py_get_def)
  have c: "project_card demo_lib (JObj project_with_demo)
      = Inr (card_html demo_lib project_with_demo [])"
    using t by (simp add: project_card_def)
  from live_demo_link_per_record [OF t f g] c y show ?thesis by auto
qed

text \<open>
  C5 as stated fails for a record whose field is present and empty: no link is
  rendered.
\<close>

theorem live_demo_link_empty_url_counterexample:
  "map_of project_empty_demo ''liveDemoUrl'' = Some (JStr [])
   \<and> project_card demo_lib (JObj project_empty_demo)
       = Inr (card_html demo_lib project_empty_demo [])
   \<and> occurrences ''Live Demo'' (card_html demo_lib project_empty_demo []) = 0"
proof -
  have t: "py_iter (py_get project_empty_demo ''tags'' (JArr [])) = Inr []"
    by (simp add: project_empty_demo_def py_get_def)
  have f: "\<forall>k v. map_of project_empty_demo k = Some v
      \<longrightarrow> occurrences ''Live Demo'' (fmt demo_lib v) = 0"
    by (auto simp: project_empty_demo_def fmt_def split: if_splits)
  have g: "\<forall>tag\<in>set []. occurrences ''Live Demo'' (fmt demo_lib tag) = 0" by simp
  have n: "\<not> truthy (py_get project_empty_demo ''liveDemoUrl'' JNull)"
    by (simp add: project_empty_demo_def py_get_def)
  have "occurrences ''Live Demo'' (card_html demo_lib project_empty_demo (concat (map (tag_span demo_lib) [])))
      = (if truthy (py_get project_empty_demo ''liveDemoUrl'' JNull) then 1 else 0)"
    using f g by (rule card_link_count)
  with n have "occurrences ''Live Demo'' (card_html demo_lib project_empty_demo []) = 0" by simp
  moreover have "project_card demo_lib (JObj project_empty_demo)
      = Inr (card_html demo_lib project_empty_demo [])"
    using t by (simp add: project_card_def)
  moreover have "map_of project_empty_demo ''liveDemoUrl'' = Some (JStr [])"
    by (simp add: project_empty_demo_def)
  ultimately show ?thesis by simp
qed

subsection \<open>\<open>generate_blog_html\<close>: newest first\<close>











end
